theory Spec2Isabelle
  imports Complex_Main "HOL-Library.Multiset"
begin

section \<open>JavaScript values\<close>

text \<open>
  The entry store of \<^verbatim>\<open>src/components/utilities/storage.ts\<close> validates values of type
  \<^verbatim>\<open>any\<close>, so the model starts from the values of JavaScript that plain data is made of.

  A number is an IEEE double: a finite value, one of the two infinities, or NaN. A finite
  double is a rational; the model takes its exact value and does not round. The code only
  tests numbers for their kind, compares them and looks at the sign of a difference, and
  none of these depends on rounding (the difference of two finite doubles is zero exactly
  when they are equal, and has the sign of the exact difference otherwise).
\<close>

datatype jsnum = NaN | NegInf | Fin rat | PosInf

text \<open>
  An object is the list of its own properties with their values; a real object has each
  property name once. Values are finite trees: functions, symbols, cyclic structures and
  objects with accessors or a \<^verbatim>\<open>toJSON\<close> method are outside the model.
\<close>

datatype jsval =
    JUndefined
  | JNull
  | JBool bool
  | JNum jsnum
  | JStr string
  | JArr "jsval list"
  | JObj "(string \<times> jsval) list"

datatype exn = TypeError | SyntaxError | Error string | Rejected

text \<open>The \<^verbatim>\<open>typeof\<close> operator.\<close>

fun typeof :: "jsval \<Rightarrow> string" where
  "typeof JUndefined = ''undefined''"
| "typeof JNull = ''object''"
| "typeof (JBool b) = ''boolean''"
| "typeof (JNum n) = ''number''"
| "typeof (JStr s) = ''string''"
| "typeof (JArr xs) = ''object''"
| "typeof (JObj kvs) = ''object''"

text \<open>Truthiness, as \<^verbatim>\<open>!v\<close> and \<^verbatim>\<open>if (v)\<close> read it.\<close>

fun truthy :: "jsval \<Rightarrow> bool" where
  "truthy JUndefined = False"
| "truthy JNull = False"
| "truthy (JBool b) = b"
| "truthy (JNum n) = (n \<noteq> NaN \<and> n \<noteq> Fin 0)"
| "truthy (JStr s) = (s \<noteq> [])"
| "truthy (JArr xs) = True"
| "truthy (JObj kvs) = True"

text \<open>\<^verbatim>\<open>Array.isArray\<close>.\<close>

fun isArray :: "jsval \<Rightarrow> bool" where
  "isArray (JArr xs) = True"
| "isArray v = False"

text \<open>
  Reading a property. \<open>propOf v name\<close> is \<^verbatim>\<open>v[name]\<close> for a value that is neither
  \<^verbatim>\<open>null\<close> nor \<^verbatim>\<open>undefined\<close>: the value of the own property of an object, and
  \<^verbatim>\<open>undefined\<close> when there is none. The names read by the store (\<^verbatim>\<open>id\<close>,
  \<^verbatim>\<open>imageUri\<close>, \<^verbatim>\<open>address\<close>, \<^verbatim>\<open>latitude\<close>, \<^verbatim>\<open>longitude\<close>, \<^verbatim>\<open>createdAt\<close>,
  \<^verbatim>\<open>title\<close>, \<^verbatim>\<open>notes\<close>, \<^verbatim>\<open>tags\<close>, \<^verbatim>\<open>weather\<close>) are no properties of arrays,
  strings, numbers or booleans, so these give \<^verbatim>\<open>undefined\<close>.
  \<open>getProp\<close> adds the TypeError that JavaScript raises on \<^verbatim>\<open>null\<close> and
  \<^verbatim>\<open>undefined\<close>.
\<close>

fun lookup :: "(string \<times> jsval) list \<Rightarrow> string \<Rightarrow> jsval" where
  "lookup [] name = JUndefined"
| "lookup ((k, v) # kvs) name = (if k = name then v else lookup kvs name)"

fun propOf :: "jsval \<Rightarrow> string \<Rightarrow> jsval" where
  "propOf (JObj kvs) name = lookup kvs name"
| "propOf v name = JUndefined"

fun getProp :: "jsval \<Rightarrow> string \<Rightarrow> exn + jsval" where
  "getProp JUndefined name = Inl TypeError"
| "getProp JNull name = Inl TypeError"
| "getProp v name = Inr (propOf v name)"

text \<open>
  Assigning a property of an object, \<^verbatim>\<open>v[name] = x\<close>: an existing property keeps its
  place, a new one is added at the end.
\<close>

fun assign :: "(string \<times> jsval) list \<Rightarrow> string \<Rightarrow> jsval \<Rightarrow> (string \<times> jsval) list" where
  "assign [] name x = [(name, x)]"
| "assign ((k, v) # kvs) name x =
     (if k = name then (k, x) # kvs else (k, v) # assign kvs name x)"

fun setProp :: "jsval \<Rightarrow> string \<Rightarrow> jsval \<Rightarrow> jsval" where
  "setProp (JObj kvs) name x = JObj (assign kvs name x)"
| "setProp v name x = v"

text \<open>
  Strict equality \<^verbatim>\<open>===\<close>. NaN equals nothing. Two objects or arrays are equal only
  when they are the same reference; the store compares fields of entries it has just
  decoded from storage, which are fresh objects, so such a comparison is never true.
\<close>

fun strict_eq :: "jsval \<Rightarrow> jsval \<Rightarrow> bool" where
  "strict_eq JUndefined JUndefined = True"
| "strict_eq JNull JNull = True"
| "strict_eq (JBool a) (JBool b) = (a = b)"
| "strict_eq (JNum a) (JNum b) = (a \<noteq> NaN \<and> a = b)"
| "strict_eq (JStr a) (JStr b) = (a = b)"
| "strict_eq v w = False"

section \<open>The record validator\<close>

text \<open>
  \<^verbatim>\<open>validateEntry\<close> (storage.ts, lines 5 to 32). The table of required fields, the loop
  over it with its early return, and the four checks of the optional fields, in the order
  of the source. A result \<open>Inl e\<close> is an exception that leaves the function.
\<close>

definition requiredFields :: "(string \<times> string) list" where
  "requiredFields =
     [(''id'', ''string''),
      (''imageUri'', ''string''),
      (''address'', ''string''),
      (''latitude'', ''number''),
      (''longitude'', ''number''),
      (''createdAt'', ''number'')]"

text \<open>
  The \<^verbatim>\<open>for\<close> loop: \<open>Inr False\<close> when it returns \<^verbatim>\<open>false\<close> from the function,
  \<open>Inr True\<close> when it runs to its end.
\<close>

fun checkRequired :: "jsval \<Rightarrow> (string \<times> string) list \<Rightarrow> exn + bool" where
  "checkRequired entry [] = Inr True"
| "checkRequired entry ((name, ty) # fields) =
     (case getProp entry name of
        Inl e \<Rightarrow> Inl e
      | Inr v \<Rightarrow> if typeof v \<noteq> ty then Inr False else checkRequired entry fields)"

text \<open>
  One check of an optional field: \<^verbatim>\<open>entry.f !== undefined && !shape(entry.f)\<close>
  is the condition under which the source returns \<^verbatim>\<open>false\<close>.
\<close>

definition optionalFails :: "jsval \<Rightarrow> string \<Rightarrow> (jsval \<Rightarrow> bool) \<Rightarrow> exn + bool" where
  "optionalFails entry name shape =
     (case getProp entry name of
        Inl e \<Rightarrow> Inl e
      | Inr v \<Rightarrow> Inr (v \<noteq> JUndefined \<and> \<not> shape v))"

definition validateEntry :: "jsval \<Rightarrow> exn + bool" where
  "validateEntry entry =
     (if \<not> truthy entry \<or> typeof entry \<noteq> ''object'' then Inr False
      else case checkRequired entry requiredFields of
        Inl e \<Rightarrow> Inl e
      | Inr False \<Rightarrow> Inr False
      | Inr True \<Rightarrow>
     (case optionalFails entry ''title'' (\<lambda>v. typeof v = ''string'') of
        Inl e \<Rightarrow> Inl e
      | Inr True \<Rightarrow> Inr False
      | Inr False \<Rightarrow>
     (case optionalFails entry ''notes'' (\<lambda>v. typeof v = ''string'') of
        Inl e \<Rightarrow> Inl e
      | Inr True \<Rightarrow> Inr False
      | Inr False \<Rightarrow>
     (case optionalFails entry ''tags'' isArray of
        Inl e \<Rightarrow> Inl e
      | Inr True \<Rightarrow> Inr False
      | Inr False \<Rightarrow>
     (case optionalFails entry ''weather'' (\<lambda>v. typeof v = ''object'') of
        Inl e \<Rightarrow> Inl e
      | Inr True \<Rightarrow> Inr False
      | Inr False \<Rightarrow> Inr True)))))"

text \<open>
  \<^verbatim>\<open>validateEntries\<close> (lines 35 to 41): \<^verbatim>\<open>entries.every(entry => validateEntry(entry))\<close>
  stops at the first element that fails.
\<close>

fun every_validateEntry :: "jsval list \<Rightarrow> exn + bool" where
  "every_validateEntry [] = Inr True"
| "every_validateEntry (entry # entries) =
     (case validateEntry entry of
        Inl e \<Rightarrow> Inl e
      | Inr False \<Rightarrow> Inr False
      | Inr True \<Rightarrow> every_validateEntry entries)"

fun validateEntries :: "jsval \<Rightarrow> exn + bool" where
  "validateEntries (JArr entries) = every_validateEntry entries"
| "validateEntries v = Inr False"

section \<open>JSON encoding and the key-value store\<close>

text \<open>
  \<^verbatim>\<open>JSON.stringify\<close> writes a number that is not finite as \<^verbatim>\<open>null\<close>, writes
  \<^verbatim>\<open>undefined\<close> as \<^verbatim>\<open>null\<close> inside an array and leaves out a property whose value is
  \<^verbatim>\<open>undefined\<close> (ECMA-262, SerializeJSONProperty, SerializeJSONObject and
  SerializeJSONArray). \<open>asJSON v\<close> is the value that \<^verbatim>\<open>JSON.parse\<close> returns on the
  text \<^verbatim>\<open>JSON.stringify(v)\<close>. Strings and finite numbers come back as they were.
  The equation for \<^verbatim>\<open>undefined\<close> is its value as an element of an array; as the
  value of a property it is left out with the property.
\<close>

fun isFinite :: "jsnum \<Rightarrow> bool" where
  "isFinite (Fin r) = True"
| "isFinite n = False"

fun asJSON :: "jsval \<Rightarrow> jsval"
  and asJSON_elements :: "jsval list \<Rightarrow> jsval list"
  and asJSON_properties :: "(string \<times> jsval) list \<Rightarrow> (string \<times> jsval) list" where
  "asJSON JUndefined = JNull"
| "asJSON JNull = JNull"
| "asJSON (JBool b) = JBool b"
| "asJSON (JNum n) = (if isFinite n then JNum n else JNull)"
| "asJSON (JStr s) = JStr s"
| "asJSON (JArr xs) = JArr (asJSON_elements xs)"
| "asJSON (JObj kvs) = JObj (asJSON_properties kvs)"
| "asJSON_elements [] = []"
| "asJSON_elements (x # xs) = asJSON x # asJSON_elements xs"
| "asJSON_properties [] = []"
| "asJSON_properties ((k, v) # kvs) =
     (if v = JUndefined then asJSON_properties kvs
      else (k, asJSON v) # asJSON_properties kvs)"

text \<open>
  A stored string is known by what the code does with it: it is the empty string (which
  \<^verbatim>\<open>!entriesString\<close> takes for absent), or \<^verbatim>\<open>JSON.parse\<close> raises a SyntaxError on
  it, or it is a JSON text. \<open>Encodes v\<close> is the text \<^verbatim>\<open>JSON.stringify(v)\<close>, and
  \<^verbatim>\<open>JSON.parse\<close> returns \<open>asJSON v\<close> on it. Every JSON text is such a text up to
  layout, apart from a text with a number literal beyond the range of doubles, which is
  outside the model. The store applies \<^verbatim>\<open>JSON.stringify\<close> to arrays only, for which
  it always returns a string.
\<close>

datatype stored = EmptyText | Malformed | Encodes jsval

fun JSON_parse :: "stored \<Rightarrow> exn + jsval" where
  "JSON_parse EmptyText = Inl SyntaxError"
| "JSON_parse Malformed = Inl SyntaxError"
| "JSON_parse (Encodes v) = Inr (asJSON v)"

definition JSON_stringify :: "jsval \<Rightarrow> stored" where
  "JSON_stringify v = Encodes v"

text \<open>
  The world outside the module is AsyncStorage. The module uses the single key
  \<^verbatim>\<open>StorageKeys.ENTRIES\<close>; \<open>item\<close> is the string stored under it, if any.
  Each call of AsyncStorage may reject: \<open>rejects\<close> says for the coming calls, in order,
  whether they do (none does once the list is used up). A call that rejects leaves the
  stored string as it was. \<open>calls\<close> is the log of the calls made so far. An operation
  runs from its first call to its last with no other writer in between.
  \<open>rejecting w\<close> says that the next call rejects, and \<open>rejectsAt k w\<close> that the
  call after \<open>k\<close> further calls does.
\<close>

datatype call = GetItem | SetItem stored | RemoveItem

record world =
  item :: "stored option"
  rejects :: "bool list"
  calls :: "call list"

definition rejecting :: "world \<Rightarrow> bool" where
  "rejecting w = (case rejects w of [] \<Rightarrow> False | b # bs \<Rightarrow> b)"

definition rejectsAt :: "nat \<Rightarrow> world \<Rightarrow> bool" where
  "rejectsAt k w = (k < length (rejects w) \<and> rejects w ! k)"

definition called :: "call \<Rightarrow> world \<Rightarrow> world" where
  "called c w = w\<lparr>rejects := tl (rejects w), calls := calls w @ [c]\<rparr>"

definition AsyncStorage_getItem :: "world \<Rightarrow> (exn + stored option) \<times> world" where
  "AsyncStorage_getItem w =
     (if rejecting w then (Inl Rejected, called GetItem w)
      else (Inr (item w), called GetItem w))"

definition AsyncStorage_setItem :: "stored \<Rightarrow> world \<Rightarrow> (exn + unit) \<times> world" where
  "AsyncStorage_setItem t w =
     (if rejecting w then (Inl Rejected, called (SetItem t) w)
      else (Inr (), (called (SetItem t) w)\<lparr>item := Some t\<rparr>))"

definition AsyncStorage_removeItem :: "world \<Rightarrow> (exn + unit) \<times> world" where
  "AsyncStorage_removeItem w =
     (if rejecting w then (Inl Rejected, called RemoveItem w)
      else (Inr (), (called RemoveItem w)\<lparr>item := None\<rparr>))"

text \<open>
  \<^verbatim>\<open>try { ... } catch (error) { ...; return d }\<close>: an exception of the body becomes the
  value \<open>d\<close>. The messages written to the console are not part of the model.
\<close>

definition tryCatch :: "'a \<Rightarrow> (exn + 'a) \<times> 's \<Rightarrow> (exn + 'a) \<times> 's" where
  "tryCatch d r = (case r of (Inl e, s) \<Rightarrow> (Inr d, s) | (Inr x, s) \<Rightarrow> (Inr x, s))"

section \<open>Reading all entries\<close>

text \<open>
  The comparison function of the sort, \<^verbatim>\<open>(a, b) => b.createdAt - a.createdAt\<close>. It is
  applied to entries that passed the validator, whose \<^verbatim>\<open>createdAt\<close> is a number; NaN
  stands in for the other cases, which are not reached.
\<close>

definition createdAt :: "jsval \<Rightarrow> jsnum" where
  "createdAt e = (case propOf e ''createdAt'' of JNum n \<Rightarrow> n | _ \<Rightarrow> NaN)"

fun num_sub :: "jsnum \<Rightarrow> jsnum \<Rightarrow> jsnum" where
  "num_sub NaN y = NaN"
| "num_sub x NaN = NaN"
| "num_sub (Fin a) (Fin b) = Fin (a - b)"
| "num_sub (Fin a) PosInf = NegInf"
| "num_sub (Fin a) NegInf = PosInf"
| "num_sub PosInf PosInf = NaN"
| "num_sub PosInf y = PosInf"
| "num_sub NegInf NegInf = NaN"
| "num_sub NegInf y = NegInf"

fun positive :: "jsnum \<Rightarrow> bool" where
  "positive (Fin r) = (0 < r)"
| "positive PosInf = True"
| "positive n = False"

definition compareFn :: "jsval \<Rightarrow> jsval \<Rightarrow> jsnum" where
  "compareFn a b = num_sub (createdAt b) (createdAt a)"

text \<open>
  \<^verbatim>\<open>Array.prototype.sort\<close> is stable and puts \<open>a\<close> after \<open>b\<close> when the comparison of
  \<open>a\<close> with \<open>b\<close> is positive; a result that is zero or NaN keeps the order. With a
  consistent comparison function every such sort gives the same array; the model is
  insertion from the right.
\<close>

fun insertEntry :: "jsval \<Rightarrow> jsval list \<Rightarrow> jsval list" where
  "insertEntry a [] = [a]"
| "insertEntry a (b # bs) =
     (if positive (compareFn a b) then b # insertEntry a bs else a # b # bs)"

definition sortEntries :: "jsval list \<Rightarrow> jsval list" where
  "sortEntries xs = foldr insertEntry xs []"

fun elements :: "jsval \<Rightarrow> jsval list" where
  "elements (JArr xs) = xs"
| "elements v = []"

text \<open>\<^verbatim>\<open>getEntries\<close> (lines 86 to 104).\<close>

definition getEntries_try :: "world \<Rightarrow> (exn + jsval list) \<times> world" where
  "getEntries_try w =
     (case AsyncStorage_getItem w of
        (Inl e, w1) \<Rightarrow> (Inl e, w1)
      | (Inr None, w1) \<Rightarrow> (Inr [], w1)
      | (Inr (Some EmptyText), w1) \<Rightarrow> (Inr [], w1)
      | (Inr (Some entriesString), w1) \<Rightarrow>
          (case JSON_parse entriesString of
             Inl e \<Rightarrow> (Inl e, w1)
           | Inr parsedData \<Rightarrow>
               (case validateEntries parsedData of
                  Inl e \<Rightarrow> (Inl e, w1)
                | Inr False \<Rightarrow> (Inr [], w1)
                | Inr True \<Rightarrow> (Inr (sortEntries (elements parsedData)), w1))))"

definition getEntries :: "world \<Rightarrow> (exn + jsval list) \<times> world" where
  "getEntries w = tryCatch [] (getEntries_try w)"

section \<open>The operations of the store\<close>

text \<open>
  The identifier made on a collision,
  \<^verbatim>\<open>`entry_${Date.now().toString(36)}_${Math.random().toString(36).substr(2, 9)}`\<close>.
  The clock and the random number come from outside: \<open>now\<close> is the value of
  \<^verbatim>\<open>Date.now()\<close> and \<open>random36\<close> the string \<^verbatim>\<open>Math.random().toString(36)\<close>.
\<close>

definition digits36 :: string where
  "digits36 = ''0123456789abcdefghijklmnopqrstuvwxyz''"

fun toString36 :: "nat \<Rightarrow> string" where
  "toString36 n =
     (if n < 36 then [digits36 ! n]
      else toString36 (n div 36) @ [digits36 ! (n mod 36)])"

definition newId :: "nat \<Rightarrow> string \<Rightarrow> string" where
  "newId now random36 = ''entry_'' @ toString36 now @ ''_'' @ take 9 (drop 2 random36)"

definition sameId :: "jsval \<Rightarrow> jsval \<Rightarrow> bool" where
  "sameId x e = strict_eq (propOf e ''id'') x"

text \<open>
  \<^verbatim>\<open>saveEntry\<close> (lines 46 to 81). The function writes to \<^verbatim>\<open>entry.id\<close>, so it
  returns the caller's entry as it is after the call, next to the result and the world.
\<close>

definition saveEntry_try ::
  "nat \<Rightarrow> string \<Rightarrow> jsval \<Rightarrow> world \<Rightarrow> (exn + bool) \<times> (jsval \<times> world)" where
  "saveEntry_try now random36 entry w =
     (case validateEntry entry of
        Inl e \<Rightarrow> (Inl e, entry, w)
      | Inr False \<Rightarrow> (Inl (Error ''Invalid entry data structure''), entry, w)
      | Inr True \<Rightarrow>
     (case getEntries w of
        (Inl e, w1) \<Rightarrow> (Inl e, entry, w1)
      | (Inr existingEntries, w1) \<Rightarrow>
     (let entry1 =
            (if list_ex (sameId (propOf entry ''id'')) existingEntries
             then setProp entry ''id'' (JStr (newId now random36))
             else entry);
          updatedEntries = existingEntries @ [entry1]
      in case AsyncStorage_setItem (JSON_stringify (JArr updatedEntries)) w1 of
        (Inl e, w2) \<Rightarrow> (Inl e, entry1, w2)
      | (Inr u, w2) \<Rightarrow>
     (case getEntries w2 of
        (Inl e, w3) \<Rightarrow> (Inl e, entry1, w3)
      | (Inr currentEntries, w3) \<Rightarrow>
     (let wasSaved = list_ex (sameId (propOf entry1 ''id'')) currentEntries
      in if \<not> wasSaved then (Inr False, entry1, w3) else (Inr True, entry1, w3))))))"

definition saveEntry ::
  "nat \<Rightarrow> string \<Rightarrow> jsval \<Rightarrow> world \<Rightarrow> (exn + bool) \<times> (jsval \<times> world)" where
  "saveEntry now random36 entry w = tryCatch False (saveEntry_try now random36 entry w)"

text \<open>\<^verbatim>\<open>getEntryById\<close> (lines 109 to 118); the result \<open>JNull\<close> is \<^verbatim>\<open>null\<close>.
  The parameter \<^verbatim>\<open>id\<close> is written \<open>ident\<close>.\<close>

definition getEntryById_try :: "jsval \<Rightarrow> world \<Rightarrow> (exn + jsval) \<times> world" where
  "getEntryById_try ident w =
     (case getEntries w of
        (Inl e, w1) \<Rightarrow> (Inl e, w1)
      | (Inr entries, w1) \<Rightarrow>
          (case find (sameId ident) entries of
             None \<Rightarrow> (Inr JNull, w1)
           | Some entry \<Rightarrow> (Inr (if truthy entry then entry else JNull), w1)))"

definition getEntryById :: "jsval \<Rightarrow> world \<Rightarrow> (exn + jsval) \<times> world" where
  "getEntryById ident w = tryCatch JNull (getEntryById_try ident w)"

text \<open>\<^verbatim>\<open>removeEntry\<close> (lines 123 to 154).\<close>

definition removeEntry_try :: "jsval \<Rightarrow> world \<Rightarrow> (exn + bool) \<times> world" where
  "removeEntry_try ident w =
     (if \<not> truthy ident \<or> typeof ident \<noteq> ''string'' then (Inl (Error ''Invalid entry ID''), w)
      else case getEntries w of
        (Inl e, w1) \<Rightarrow> (Inl e, w1)
      | (Inr existingEntries, w1) \<Rightarrow>
     (let entryExists = list_ex (sameId ident) existingEntries
      in if \<not> entryExists then (Inr False, w1)
      else
     (let updatedEntries = filter (\<lambda>entry. \<not> sameId ident entry) existingEntries
      in case AsyncStorage_setItem (JSON_stringify (JArr updatedEntries)) w1 of
        (Inl e, w2) \<Rightarrow> (Inl e, w2)
      | (Inr u, w2) \<Rightarrow>
     (case getEntries w2 of
        (Inl e, w3) \<Rightarrow> (Inl e, w3)
      | (Inr currentEntries, w3) \<Rightarrow>
     (let wasRemoved = \<not> list_ex (sameId ident) currentEntries
      in if \<not> wasRemoved then (Inr False, w3) else (Inr True, w3))))))"

definition removeEntry :: "jsval \<Rightarrow> world \<Rightarrow> (exn + bool) \<times> world" where
  "removeEntry ident w = tryCatch False (removeEntry_try ident w)"

text \<open>
  \<^verbatim>\<open>updateEntry\<close> (lines 159 to 192). \<^verbatim>\<open>findIndex\<close> gives \<open>-1\<close> when no element
  matches.
\<close>

fun findIndex :: "('a \<Rightarrow> bool) \<Rightarrow> 'a list \<Rightarrow> int" where
  "findIndex P [] = - 1"
| "findIndex P (x # xs) =
     (if P x then 0
      else (let i = findIndex P xs in if i = - 1 then - 1 else i + 1))"

definition updateEntry_try :: "jsval \<Rightarrow> world \<Rightarrow> (exn + bool) \<times> world" where
  "updateEntry_try updatedEntry w =
     (case validateEntry updatedEntry of
        Inl e \<Rightarrow> (Inl e, w)
      | Inr False \<Rightarrow> (Inl (Error ''Invalid entry data structure''), w)
      | Inr True \<Rightarrow>
     (case getEntries w of
        (Inl e, w1) \<Rightarrow> (Inl e, w1)
      | (Inr existingEntries, w1) \<Rightarrow>
     (let entryIndex = findIndex (sameId (propOf updatedEntry ''id'')) existingEntries
      in if entryIndex = - 1 then (Inr False, w1)
      else
     (let existingEntries1 = existingEntries[nat entryIndex := updatedEntry]
      in case AsyncStorage_setItem (JSON_stringify (JArr existingEntries1)) w1 of
        (Inl e, w2) \<Rightarrow> (Inl e, w2)
      | (Inr u, w2) \<Rightarrow>
     (case getEntries w2 of
        (Inl e, w3) \<Rightarrow> (Inl e, w3)
      | (Inr currentEntries, w3) \<Rightarrow>
     (let updatedInStorage =
            list_ex (\<lambda>e. strict_eq (propOf e ''id'') (propOf updatedEntry ''id'')
                        \<and> strict_eq (propOf e ''createdAt'') (propOf updatedEntry ''createdAt''))
              currentEntries
      in if \<not> updatedInStorage then (Inr False, w3) else (Inr True, w3)))))))"

definition updateEntry :: "jsval \<Rightarrow> world \<Rightarrow> (exn + bool) \<times> world" where
  "updateEntry updatedEntry w = tryCatch False (updateEntry_try updatedEntry w)"

text \<open>\<^verbatim>\<open>clearAllEntries\<close> (lines 197 to 213).\<close>

definition clearAllEntries_try :: "world \<Rightarrow> (exn + bool) \<times> world" where
  "clearAllEntries_try w =
     (case AsyncStorage_removeItem w of
        (Inl e, w1) \<Rightarrow> (Inl e, w1)
      | (Inr u, w1) \<Rightarrow>
     (case getEntries w1 of
        (Inl e, w2) \<Rightarrow> (Inl e, w2)
      | (Inr currentEntries, w2) \<Rightarrow>
          (if length currentEntries > 0 then (Inr False, w2) else (Inr True, w2))))"

definition clearAllEntries :: "world \<Rightarrow> (exn + bool) \<times> world" where
  "clearAllEntries w = tryCatch False (clearAllEntries_try w)"

text \<open>\<^verbatim>\<open>getEntryCount\<close> (lines 218 to 226).\<close>

definition getEntryCount_try :: "world \<Rightarrow> (exn + nat) \<times> world" where
  "getEntryCount_try w =
     (case getEntries w of
        (Inl e, w1) \<Rightarrow> (Inl e, w1)
      | (Inr entries, w1) \<Rightarrow> (Inr (length entries), w1))"

definition getEntryCount :: "world \<Rightarrow> (exn + nat) \<times> world" where
  "getEntryCount w = tryCatch 0 (getEntryCount_try w)"

text \<open>
  \<^verbatim>\<open>debugStorage\<close> (lines 231 to 244) reads the entries and writes to the console only;
  it returns nothing.
\<close>

definition debugStorage_try :: "world \<Rightarrow> (exn + unit) \<times> world" where
  "debugStorage_try w =
     (case getEntries w of
        (Inl e, w1) \<Rightarrow> (Inl e, w1)
      | (Inr entries, w1) \<Rightarrow> (Inr (), w1))"

definition debugStorage :: "world \<Rightarrow> (exn + unit) \<times> world" where
  "debugStorage w = tryCatch () (debugStorage_try w)"

section \<open>The stored collection\<close>

text \<open>
  The collection that a stored string holds for the module: the entries that
  \<^verbatim>\<open>getEntries\<close> decodes from it when the read succeeds. \<open>entriesRead w\<close> is
  what a read gives in the world \<open>w\<close>, where the call may reject, and \<open>wrote t w\<close>
  is the world after a write of \<open>t\<close> that did not reject. \<open>storedIds\<close> lists the
  identifiers of the stored entries in the order of reading. These are names for what
  the code computes, not further code: \<open>getEntries_read\<close> and \<open>setItem_eq\<close> below
  prove that \<^verbatim>\<open>getEntries\<close> returns \<open>entriesRead\<close> and that a write that does not
  reject leads to \<open>wrote\<close>.
\<close>

fun readable :: "stored option \<Rightarrow> jsval list" where
  "readable None = []"
| "readable (Some EmptyText) = []"
| "readable (Some Malformed) = []"
| "readable (Some (Encodes v)) =
     (if validateEntries (asJSON v) = Inr True then sortEntries (elements (asJSON v)) else [])"

definition entriesRead :: "world \<Rightarrow> jsval list" where
  "entriesRead w = (if rejecting w then [] else readable (item w))"

definition wrote :: "stored \<Rightarrow> world \<Rightarrow> world" where
  "wrote t w = (called (SetItem t) w)\<lparr>item := Some t\<rparr>"

definition idOf :: "jsval \<Rightarrow> jsval" where
  "idOf e = propOf e ''id''"

definition storedIds :: "world \<Rightarrow> jsval list" where
  "storedIds w = map idOf (readable (item w))"

text \<open>
  The invariant of the data model on the stored string itself: it decodes to an array
  whose elements all pass the validator, or nothing is stored.
\<close>

definition persistedValid :: "world \<Rightarrow> bool" where
  "persistedValid w =
     (case item w of
        None \<Rightarrow> True
      | Some EmptyText \<Rightarrow> False
      | Some Malformed \<Rightarrow> False
      | Some (Encodes v) \<Rightarrow>
          isArray (asJSON v)
          \<and> list_all (\<lambda>e. validateEntry e = Inr True) (elements (asJSON v)))"

text \<open>The order \<^verbatim>\<open>a >= b\<close> of numbers; it is false when one of them is NaN.\<close>

fun num_ge :: "jsnum \<Rightarrow> jsnum \<Rightarrow> bool" where
  "num_ge NaN y = False"
| "num_ge x NaN = False"
| "num_ge PosInf y = True"
| "num_ge x NegInf = True"
| "num_ge (Fin a) (Fin b) = (b \<le> a)"
| "num_ge x y = False"

definition newestFirst :: "jsval list \<Rightarrow> bool" where
  "newestFirst xs = sorted_wrt (\<lambda>a b. num_ge (createdAt a) (createdAt b)) xs"

section \<open>Sample data\<close>

text \<open>
  Entries and worlds on which the theorems below are instantiated. \<open>sample i a t\<close> is
  an entry with identifier \<open>i\<close>, address \<open>a\<close> and creation time \<open>t\<close>, and no
  optional field; \<open>fullEntry\<close> has all ten fields and \<open>noLatitude\<close> lacks one that
  is required; \<open>holding xs\<close> is a world in which the store works and holds the
  entries \<open>xs\<close>.
\<close>

definition sample :: "string \<Rightarrow> string \<Rightarrow> rat \<Rightarrow> jsval" where
  "sample i a t =
     JObj [(''id'', JStr i), (''imageUri'', JStr ''file:///photo.jpg''), (''address'', JStr a),
           (''latitude'', JNum (Fin 38)), (''longitude'', JNum (Fin (- 9))),
           (''createdAt'', JNum (Fin t))]"

definition fullEntry :: jsval where
  "fullEntry =
     JObj [(''id'', JStr ''entry_1''), (''imageUri'', JStr ''file:///photo.jpg''),
           (''address'', JStr ''Rua Augusta, Lisboa''),
           (''latitude'', JNum (Fin 38)), (''longitude'', JNum (Fin (- 9))),
           (''createdAt'', JNum (Fin 1700000000000)),
           (''title'', JStr ''Arch''), (''notes'', JStr ''windy''),
           (''tags'', JArr [JStr ''city'']),
           (''weather'', JObj [(''temperature'', JNum (Fin 21)), (''conditions'', JStr ''sunny'')])]"

definition noLatitude :: jsval where
  "noLatitude =
     JObj [(''id'', JStr ''entry_2''), (''imageUri'', JStr ''file:///photo.jpg''),
           (''address'', JStr ''Rua Augusta, Lisboa''), (''longitude'', JNum (Fin (- 9))),
           (''createdAt'', JNum (Fin 1700000000000))]"

definition holding :: "jsval list \<Rightarrow> world" where
  "holding xs = \<lparr>item = Some (Encodes (JArr xs)), rejects = [], calls = []\<rparr>"

definition emptyWorld :: world where
  "emptyWorld = \<lparr>item = None, rejects = [], calls = []\<rparr>"

section \<open>The schema in the words of the specification\<close>

text \<open>
  The specification describes the validator as a predicate on a decoded value: the value
  is a structured value, each of the six required fields is present with its primitive
  kind, and each optional field that is present has its shape. A field is present when
  reading it gives something else than \<^verbatim>\<open>undefined\<close>. A structured value is a value
  whose \<^verbatim>\<open>typeof\<close> is \<^verbatim>\<open>object\<close>; a sequence is an array.
\<close>

definition structured :: "jsval \<Rightarrow> bool" where
  "structured v = (typeof v = ''object'')"

definition present :: "jsval \<Rightarrow> string \<Rightarrow> bool" where
  "present v name = (propOf v name \<noteq> JUndefined)"

definition requiredString :: "jsval \<Rightarrow> string \<Rightarrow> bool" where
  "requiredString v name = (present v name \<and> typeof (propOf v name) = ''string'')"

definition requiredNumber :: "jsval \<Rightarrow> string \<Rightarrow> bool" where
  "requiredNumber v name = (present v name \<and> typeof (propOf v name) = ''number'')"

definition meetsSchema :: "jsval \<Rightarrow> bool" where
  "meetsSchema v =
     (structured v
      \<and> requiredString v ''id''
      \<and> requiredString v ''imageUri''
      \<and> requiredString v ''address''
      \<and> requiredNumber v ''latitude''
      \<and> requiredNumber v ''longitude''
      \<and> requiredNumber v ''createdAt''
      \<and> (present v ''title'' \<longrightarrow> typeof (propOf v ''title'') = ''string'')
      \<and> (present v ''notes'' \<longrightarrow> typeof (propOf v ''notes'') = ''string'')
      \<and> (present v ''tags'' \<longrightarrow> isArray (propOf v ''tags''))
      \<and> (present v ''weather'' \<longrightarrow> structured (propOf v ''weather'')))"

text \<open>
  The declared type \<^verbatim>\<open>TravelEntry\<close> (the interface of the types module): what a value
  of that type is at run time. \<^verbatim>\<open>tags\<close> is an array of strings and \<^verbatim>\<open>weather\<close>
  an object whose three fields are optional.
\<close>

definition optionalOf :: "jsval \<Rightarrow> string \<Rightarrow> (jsval \<Rightarrow> bool) \<Rightarrow> bool" where
  "optionalOf v name ok = (propOf v name = JUndefined \<or> ok (propOf v name))"

fun isObject :: "jsval \<Rightarrow> bool" where
  "isObject (JObj kvs) = True"
| "isObject v = False"

fun stringArray :: "jsval \<Rightarrow> bool" where
  "stringArray (JArr xs) = list_all (\<lambda>x. typeof x = ''string'') xs"
| "stringArray v = False"

definition isWeather :: "jsval \<Rightarrow> bool" where
  "isWeather v =
     (isObject v
      \<and> optionalOf v ''temperature'' (\<lambda>x. typeof x = ''number'')
      \<and> optionalOf v ''conditions'' (\<lambda>x. typeof x = ''string'')
      \<and> optionalOf v ''humidity'' (\<lambda>x. typeof x = ''number''))"

definition isTravelEntry :: "jsval \<Rightarrow> bool" where
  "isTravelEntry v =
     (isObject v
      \<and> typeof (propOf v ''id'') = ''string''
      \<and> typeof (propOf v ''imageUri'') = ''string''
      \<and> typeof (propOf v ''address'') = ''string''
      \<and> typeof (propOf v ''latitude'') = ''number''
      \<and> typeof (propOf v ''longitude'') = ''number''
      \<and> typeof (propOf v ''createdAt'') = ''number''
      \<and> optionalOf v ''title'' (\<lambda>x. typeof x = ''string'')
      \<and> optionalOf v ''notes'' (\<lambda>x. typeof x = ''string'')
      \<and> optionalOf v ''tags'' stringArray
      \<and> optionalOf v ''weather'' isWeather)"

section \<open>Properties of the model\<close>

subsection \<open>The validator\<close>

lemma checkRequired_object:
  "checkRequired (JObj kvs) fs =
     Inr (list_all (\<lambda>(name, ty). typeof (lookup kvs name) = ty) fs)"
  by (induction fs) auto

lemma optionalFails_object:
  "optionalFails (JObj kvs) name shape =
     Inr (lookup kvs name \<noteq> JUndefined \<and> \<not> shape (lookup kvs name))"
  by (simp add: optionalFails_def)

lemma validateEntry_object:
  "validateEntry (JObj kvs) =
     Inr (list_all (\<lambda>(name, ty). typeof (lookup kvs name) = ty) requiredFields
          \<and> (lookup kvs ''title'' = JUndefined \<or> typeof (lookup kvs ''title'') = ''string'')
          \<and> (lookup kvs ''notes'' = JUndefined \<or> typeof (lookup kvs ''notes'') = ''string'')
          \<and> (lookup kvs ''tags'' = JUndefined \<or> isArray (lookup kvs ''tags''))
          \<and> (lookup kvs ''weather'' = JUndefined
               \<or> typeof (lookup kvs ''weather'') = ''object''))"
  by (auto simp: validateEntry_def checkRequired_object optionalFails_object
      split: bool.splits)

lemma validateEntry_not_object:
  "\<not> isObject v \<Longrightarrow> validateEntry v = Inr False"
  by (cases v) (simp_all add: validateEntry_def requiredFields_def)

lemma validateEntry_returns: "\<exists>b. validateEntry v = Inr b"
proof (cases "isObject v")
  case False
  then have "validateEntry v = Inr False"
    by (rule validateEntry_not_object)
  then show ?thesis ..
next
  case True
  then obtain kvs where "v = JObj kvs"
    by (cases v) simp_all
  then show ?thesis
    by (simp add: validateEntry_object)
qed

subsection \<open>Accepted entries and JSON encoding\<close>

lemma valid_object: "validateEntry e = Inr True \<Longrightarrow> \<exists>kvs. e = JObj kvs"
  by (cases e) (simp_all add: validateEntry_def requiredFields_def)

lemma typeof_string: "typeof v = ''string'' \<longleftrightarrow> (\<exists>s. v = JStr s)"
  by (cases v) simp_all

lemma typeof_number: "typeof v = ''number'' \<longleftrightarrow> (\<exists>n. v = JNum n)"
  by (cases v) simp_all

lemma valid_fields:
  assumes "validateEntry e = Inr True"
  shows "\<exists>s. propOf e ''id'' = JStr s" and "\<exists>n. propOf e ''createdAt'' = JNum n"
    and "\<exists>n. propOf e ''latitude'' = JNum n" and "\<exists>n. propOf e ''longitude'' = JNum n"
    and "\<exists>s. propOf e ''imageUri'' = JStr s" and "\<exists>s. propOf e ''address'' = JStr s"
  using assms valid_object[OF assms]
  by (auto simp: validateEntry_object requiredFields_def typeof_string typeof_number)

lemma every_validateEntry_eq:
  "every_validateEntry xs = Inr (list_all (\<lambda>e. validateEntry e = Inr True) xs)"
proof (induction xs)
  case Nil
  show ?case by simp
next
  case (Cons x xs)
  obtain b where "validateEntry x = Inr b"
    using validateEntry_returns by blast
  with Cons show ?case
    by (cases b) simp_all
qed

lemma asJSON_elements_map: "asJSON_elements xs = map asJSON xs"
  by (induction xs) simp_all

lemma asJSON_not_undefined: "asJSON v \<noteq> JUndefined"
  by (cases v) simp_all

lemma asJSON_idem:
  "asJSON (asJSON v) = asJSON v"
  "asJSON_elements (asJSON_elements xs) = asJSON_elements xs"
  "asJSON_properties (asJSON_properties kvs) = asJSON_properties kvs"
  by (induction v and xs and kvs rule: asJSON_asJSON_elements_asJSON_properties.induct)
     (simp_all add: asJSON_not_undefined)

lemma lookup_asJSON:
  "lookup kvs k \<noteq> JUndefined \<Longrightarrow> lookup (asJSON_properties kvs) k = asJSON (lookup kvs k)"
  by (induction kvs) auto

subsection \<open>The sort\<close>

lemma set_insertEntry: "set (insertEntry a bs) = insert a (set bs)"
  by (induction bs) auto

lemma mset_insertEntry: "mset (insertEntry a bs) = add_mset a (mset bs)"
  by (induction bs) auto

lemma mset_sortEntries: "mset (sortEntries xs) = mset xs"
  by (induction xs) (simp_all add: sortEntries_def mset_insertEntry)

lemma set_sortEntries: "set (sortEntries xs) = set xs"
  using mset_sortEntries[of xs] by (metis set_mset_mset)

lemma length_sortEntries: "length (sortEntries xs) = length xs"
  using mset_sortEntries[of xs] by (metis size_mset)

lemma getEntries_eq:
  "getEntries w = (Inr (if rejecting w then [] else readable (item w)), called GetItem w)"
proof (cases "rejecting w")
  case True
  then show ?thesis
    by (simp add: getEntries_def getEntries_try_def tryCatch_def AsyncStorage_getItem_def)
next
  case False
  show ?thesis
  proof (cases "item w")
    case None
    with False show ?thesis
      by (simp add: getEntries_def getEntries_try_def tryCatch_def AsyncStorage_getItem_def)
  next
    case (Some t)
    with False show ?thesis
      by (cases t; cases "validateEntries (asJSON (case t of Encodes v \<Rightarrow> v))")
         (auto simp: getEntries_def getEntries_try_def tryCatch_def AsyncStorage_getItem_def
           split: bool.splits sum.splits)
  qed
qed

subsection \<open>The order of the sort\<close>

lemma num_ge_trans: "num_ge x y \<Longrightarrow> num_ge y z \<Longrightarrow> num_ge x z"
  by (cases x; cases y; cases z) simp_all

lemma not_positive_ge: "x \<noteq> NaN \<Longrightarrow> y \<noteq> NaN \<Longrightarrow> \<not> positive (num_sub y x) \<Longrightarrow> num_ge x y"
  by (cases x; cases y) simp_all

lemma positive_ge: "positive (num_sub y x) \<Longrightarrow> num_ge y x"
  by (cases x; cases y) simp_all


lemma newestFirst_insertEntry:
  "createdAt a \<noteq> NaN \<Longrightarrow> \<forall>b\<in>set bs. createdAt b \<noteq> NaN \<Longrightarrow> newestFirst bs
   \<Longrightarrow> newestFirst (insertEntry a bs)"
proof (induction bs)
  case Nil
  then show ?case by (simp add: newestFirst_def)
next
  case (Cons b bs)
  show ?case
  proof (cases "positive (compareFn a b)")
    case True
    then have "num_ge (createdAt b) (createdAt a)"
      by (simp add: compareFn_def positive_ge)
    with Cons True show ?thesis
      by (auto simp: newestFirst_def set_insertEntry)
  next
    case False
    with Cons.prems have ab: "num_ge (createdAt a) (createdAt b)"
      by (simp add: compareFn_def not_positive_ge)
    with Cons.prems False show ?thesis
      by (auto simp: newestFirst_def intro: num_ge_trans[OF ab])
  qed
qed

lemma newestFirst_sortEntries:
  "\<forall>b\<in>set xs. createdAt b \<noteq> NaN \<Longrightarrow> newestFirst (sortEntries xs)"
proof (induction xs)
  case Nil
  then show ?case by (simp add: newestFirst_def sortEntries_def)
next
  case (Cons a xs)
  then have "newestFirst (insertEntry a (sortEntries xs))"
    by (intro newestFirst_insertEntry) (simp_all add: set_sortEntries)
  then show ?case by (simp add: sortEntries_def)
qed


subsection \<open>The stored collection as it is read\<close>

lemma valid_idOf_asJSON: "validateEntry e = Inr True \<Longrightarrow> idOf (asJSON e) = idOf e"
  using valid_fields(1)[of e] valid_object[of e]
  by (auto simp: idOf_def lookup_asJSON)

lemma valid_sameId: "validateEntry e = Inr True \<Longrightarrow> sameId x e \<longleftrightarrow> idOf e = x"
  using valid_fields(1)[of e]
  by (cases x) (auto simp: sameId_def idOf_def)

lemma valid_createdAt_asJSON:
  assumes "validateEntry e = Inr True" and "validateEntry (asJSON e) = Inr True"
  shows "propOf (asJSON e) ''createdAt'' = propOf e ''createdAt''"
    and "\<exists>r. propOf e ''createdAt'' = JNum (Fin r)"
proof -
  obtain kvs where e: "e = JObj kvs"
    using valid_object[OF assms(1)] by blast
  obtain n where n: "lookup kvs ''createdAt'' = JNum n"
    using valid_fields(2)[OF assms(1)] by (auto simp: e)
  then have l: "lookup (asJSON_properties kvs) ''createdAt'' = asJSON (JNum n)"
    by (simp add: lookup_asJSON)
  obtain m where "lookup (asJSON_properties kvs) ''createdAt'' = JNum m"
    using valid_fields(2)[OF assms(2)] by (auto simp: e)
  with l have fin: "isFinite n"
    by (auto split: if_splits)
  with l n show "propOf (asJSON e) ''createdAt'' = propOf e ''createdAt''"
    by (simp add: e)
  from fin n show "\<exists>r. propOf e ''createdAt'' = JNum (Fin r)"
    by (cases n) (simp_all add: e)
qed

lemma readable_written:
  "readable (Some (Encodes (JArr L))) =
     (if list_all (\<lambda>e. validateEntry (asJSON e) = Inr True) L
      then sortEntries (map asJSON L) else [])"
  by (simp add: every_validateEntry_eq asJSON_elements_map list_all_iff)

lemma readable_cases:
  "readable t = [] \<or>
   (\<exists>xs. t = Some (Encodes (JArr xs)) \<and> list_all (\<lambda>e. validateEntry (asJSON e) = Inr True) xs
      \<and> readable t = sortEntries (map asJSON xs))"
proof (cases t)
  case None
  then show ?thesis by simp
next
  case (Some s)
  show ?thesis
  proof (cases s)
    case (Encodes v)
    show ?thesis
    proof (cases v)
      case (JArr xs)
      then show ?thesis
        unfolding Some Encodes JArr readable_written by simp
    qed (simp_all add: Some Encodes)
  qed (simp_all add: Some)
qed

text \<open>
  From here on the equation of \<open>readable\<close> for a JSON text is used through the two
  lemmas above, and unfolded only on request.
\<close>

declare readable.simps(4) [simp del]

lemma readable_image:
  assumes "e \<in> set (readable t)"
  obtains x where "e = asJSON x" and "validateEntry e = Inr True"
proof -
  from assms have "readable t \<noteq> []"
    by auto
  then obtain xs where xs: "list_all (\<lambda>e. validateEntry (asJSON e) = Inr True) xs"
    and r: "readable t = sortEntries (map asJSON xs)"
    using readable_cases[of t] by blast
  from assms have "e \<in> asJSON ` set xs"
    unfolding r by (simp add: set_sortEntries)
  with xs that show thesis
    by (auto simp: list_all_iff)
qed

lemma readable_valid: "e \<in> set (readable t) \<Longrightarrow> validateEntry e = Inr True"
  by (erule readable_image)

lemma readable_stable: "e \<in> set (readable t) \<Longrightarrow> asJSON e = e"
  by (erule readable_image) (simp add: asJSON_idem)

lemma stable_valid_finite:
  assumes "validateEntry e = Inr True" and "asJSON e = e"
  shows "\<exists>r. createdAt e = Fin r"
  using valid_createdAt_asJSON(2)[of e] assms by (auto simp: createdAt_def)

lemma readable_newestFirst: "newestFirst (readable t)"
proof -
  have "newestFirst (sortEntries (map asJSON xs))"
    if "list_all (\<lambda>e. validateEntry (asJSON e) = Inr True) xs" for xs
  proof (rule newestFirst_sortEntries, rule ballI)
    fix b assume "b \<in> set (map asJSON xs)"
    then have "validateEntry b = Inr True" "asJSON b = b"
      using that by (auto simp: list_all_iff asJSON_idem)
    then show "createdAt b \<noteq> NaN"
      using stable_valid_finite[of b] by auto
  qed
  moreover have "newestFirst []"
    by (simp add: newestFirst_def)
  ultimately show ?thesis
    using readable_cases[of t] by metis
qed

subsection \<open>What each operation computes\<close>

lemma getEntries_read: "getEntries w = (Inr (entriesRead w), called GetItem w)"
  by (simp add: getEntries_eq entriesRead_def)

lemma entriesRead_valid: "e \<in> set (entriesRead w) \<Longrightarrow> validateEntry e = Inr True"
  by (auto simp: entriesRead_def readable_valid split: if_splits)

lemma valid_truthy: "validateEntry e = Inr True \<Longrightarrow> truthy e"
  using valid_object[of e] by auto

lemma find_valid: "find P xs = Some e \<Longrightarrow> e \<in> set xs"
  by (induction xs) (auto split: if_splits)

lemma getEntryById_eq:
  "getEntryById ident w =
     (Inr (case find (sameId ident) (entriesRead w) of None \<Rightarrow> JNull | Some e \<Rightarrow> e),
      called GetItem w)"
proof (cases "find (sameId ident) (entriesRead w)")
  case None
  then show ?thesis
    by (simp add: getEntryById_def getEntryById_try_def tryCatch_def getEntries_read)
next
  case (Some e)
  then have "truthy e"
    by (intro valid_truthy entriesRead_valid find_valid)
  with Some show ?thesis
    by (simp add: getEntryById_def getEntryById_try_def tryCatch_def getEntries_read)
qed

lemma getEntryCount_eq:
  "getEntryCount w = (Inr (length (entriesRead w)), called GetItem w)"
  by (simp add: getEntryCount_def getEntryCount_try_def tryCatch_def getEntries_read)

lemma debugStorage_eq: "debugStorage w = (Inr (), called GetItem w)"
  by (simp add: debugStorage_def debugStorage_try_def tryCatch_def getEntries_read)

lemma clearAllEntries_eq:
  "clearAllEntries w =
     (if rejecting w then (Inr False, called RemoveItem w)
      else (Inr (entriesRead ((called RemoveItem w)\<lparr>item := None\<rparr>) = []),
            called GetItem ((called RemoveItem w)\<lparr>item := None\<rparr>)))"
  by (simp add: clearAllEntries_def clearAllEntries_try_def tryCatch_def getEntries_read
      AsyncStorage_removeItem_def)

lemma setItem_eq:
  "AsyncStorage_setItem t w =
     (if rejecting w then (Inl Rejected, called (SetItem t) w) else (Inr (), wrote t w))"
  by (simp add: AsyncStorage_setItem_def wrote_def)

lemma removeEntry_eq:
  "removeEntry ident w =
     (if \<not> truthy ident \<or> typeof ident \<noteq> ''string'' then (Inr False, w)
      else if \<not> list_ex (sameId ident) (entriesRead w) then (Inr False, called GetItem w)
      else let t = Encodes (JArr (filter (\<lambda>e. \<not> sameId ident e) (entriesRead w)));
               w1 = called GetItem w
           in if rejecting w1 then (Inr False, called (SetItem t) w1)
              else (Inr (\<not> list_ex (sameId ident) (entriesRead (wrote t w1))),
                    called GetItem (wrote t w1)))"
  by (simp add: removeEntry_def removeEntry_try_def tryCatch_def getEntries_read
      setItem_eq JSON_stringify_def Let_def)

lemma saveEntry_invalid:
  "validateEntry entry \<noteq> Inr True \<Longrightarrow> saveEntry now random36 entry w = (Inr False, entry, w)"
  by (simp add: saveEntry_def saveEntry_try_def tryCatch_def split: sum.splits bool.splits)

lemma saveEntry_eq:
  "validateEntry entry = Inr True \<Longrightarrow>
   saveEntry now random36 entry w =
     (let entry1 = (if list_ex (sameId (idOf entry)) (entriesRead w)
                    then setProp entry ''id'' (JStr (newId now random36)) else entry);
          t = Encodes (JArr (entriesRead w @ [entry1]));
          w1 = called GetItem w
      in if rejecting w1 then (Inr False, entry1, called (SetItem t) w1)
         else (Inr (list_ex (sameId (idOf entry1)) (entriesRead (wrote t w1))),
               entry1, called GetItem (wrote t w1)))"
  by (simp add: saveEntry_def saveEntry_try_def tryCatch_def getEntries_read
      setItem_eq JSON_stringify_def Let_def idOf_def)

lemma updateEntry_invalid:
  "validateEntry entry \<noteq> Inr True \<Longrightarrow> updateEntry entry w = (Inr False, w)"
  by (simp add: updateEntry_def updateEntry_try_def tryCatch_def split: sum.splits bool.splits)

lemma updateEntry_eq:
  "validateEntry updatedEntry = Inr True \<Longrightarrow>
   updateEntry updatedEntry w =
     (let entryIndex = findIndex (sameId (idOf updatedEntry)) (entriesRead w)
      in if entryIndex = - 1 then (Inr False, called GetItem w)
      else let t = Encodes (JArr ((entriesRead w)[nat entryIndex := updatedEntry]));
               w1 = called GetItem w
           in if rejecting w1 then (Inr False, called (SetItem t) w1)
              else (Inr (list_ex (\<lambda>e. strict_eq (propOf e ''id'') (propOf updatedEntry ''id'')
                        \<and> strict_eq (propOf e ''createdAt'') (propOf updatedEntry ''createdAt''))
                          (entriesRead (wrote t w1))),
                    called GetItem (wrote t w1)))"
  by (simp add: updateEntry_def updateEntry_try_def tryCatch_def getEntries_read
      setItem_eq JSON_stringify_def Let_def idOf_def)

subsection \<open>The sample data\<close>

lemma sample_valid: "validateEntry (sample i a t) = Inr True"
  by (simp add: sample_def validateEntry_object requiredFields_def)

lemma sample_stable: "asJSON (sample i a t) = sample i a t"
  by (simp add: sample_def)

lemma sample_fields:
  "idOf (sample i a t) = JStr i"
  "propOf (sample i a t) ''id'' = JStr i"
  "propOf (sample i a t) ''address'' = JStr a"
  "propOf (sample i a t) ''createdAt'' = JNum (Fin t)"
  "createdAt (sample i a t) = Fin t"
  by (simp_all add: sample_def idOf_def createdAt_def)

lemma sameId_sample: "sameId x (sample i a t) \<longleftrightarrow> x = JStr i"
  by (auto simp: valid_sameId sample_valid sample_fields)

lemma readable_written_stable:
  assumes "\<forall>e\<in>set L. validateEntry e = Inr True \<and> asJSON e = e"
  shows "readable (Some (Encodes (JArr L))) = sortEntries L"
proof -
  have "map asJSON L = L"
    using assms by (simp add: map_idI)
  moreover have "list_all (\<lambda>e. validateEntry (asJSON e) = Inr True) L"
    using assms by (simp add: list_all_iff)
  ultimately show ?thesis
    unfolding readable_written by simp
qed

lemma entriesRead_holding:
  "\<forall>e\<in>set L. validateEntry e = Inr True \<and> asJSON e = e \<Longrightarrow> entriesRead (holding L) = sortEntries L"
  using readable_written_stable[of L]
  by (simp add: entriesRead_def holding_def rejecting_def)

subsection \<open>Assigning a property\<close>

lemma lookup_assign: "lookup (assign kvs k x) k' = (if k' = k then x else lookup kvs k')"
  by (induction kvs) auto

lemma propOf_setProp:
  "isObject e \<Longrightarrow> propOf (setProp e k x) k' = (if k' = k then x else propOf e k')"
  by (cases e) (simp_all add: lookup_assign)

lemma valid_isObject: "validateEntry e = Inr True \<Longrightarrow> isObject e"
  using valid_object[of e] by auto

lemma validateEntry_setProp:
  assumes "validateEntry e = Inr True"
  shows "validateEntry (setProp e ''tags'' (JArr xs)) = Inr True"
    and "validateEntry (setProp e ''weather'' JNull) = Inr True"
    and "validateEntry (setProp e ''weather'' (JObj kvs)) = Inr True"
    and "validateEntry (setProp e ''id'' (JStr s)) = Inr True"
    and "validateEntry (setProp e ''address'' (JStr s)) = Inr True"
proof -
  obtain ps where e: "e = JObj ps"
    using valid_object[OF assms] by blast
  from assms show "validateEntry (setProp e ''tags'' (JArr xs)) = Inr True"
    and "validateEntry (setProp e ''weather'' JNull) = Inr True"
    and "validateEntry (setProp e ''weather'' (JObj kvs)) = Inr True"
    and "validateEntry (setProp e ''id'' (JStr s)) = Inr True"
    and "validateEntry (setProp e ''address'' (JStr s)) = Inr True"
    by (simp_all add: e validateEntry_object requiredFields_def lookup_assign)
qed

subsection \<open>Rejected calls and worlds after a call\<close>

lemma tryCatch_fst:
  "fst (tryCatch d r) = (case fst r of Inl e \<Rightarrow> Inr d | Inr x \<Rightarrow> Inr x)"
  by (cases r) (simp add: tryCatch_def split: sum.splits)

lemma entriesRead_rejecting: "rejecting w \<Longrightarrow> entriesRead w = []"
  by (simp add: entriesRead_def)

lemma findIndex_Nil_iff: "findIndex P xs = - 1 \<longleftrightarrow> \<not> list_ex P xs"
proof (induction xs)
  case Nil
  show ?case by simp
next
  case (Cons x xs)
  have "0 \<le> findIndex P ys \<or> findIndex P ys = - 1" for ys
    by (induction ys) (auto simp: Let_def)
  from this[of xs] Cons show ?case
    by (auto simp: Let_def)
qed

lemma called_fields:
  "item (called c w) = item w"
  "rejects (called c w) = tl (rejects w)"
  "calls (called c w) = calls w @ [c]"
  by (simp_all add: called_def)

lemma wrote_fields:
  "item (wrote t w) = Some t"
  "rejects (wrote t w) = tl (rejects w)"
  "calls (wrote t w) = calls w @ [SetItem t]"
  by (simp_all add: wrote_def called_def)

lemma entriesRead_working: "rejects w = [] \<Longrightarrow> entriesRead w = readable (item w)"
  by (simp add: entriesRead_def rejecting_def)

lemma entriesRead_subset: "entriesRead w = [] \<or> entriesRead w = readable (item w)"
  by (simp add: entriesRead_def)

subsection \<open>Identifiers of a written collection\<close>

lemma idOf_readable_written:
  assumes "\<forall>e\<in>set L. validateEntry e = Inr True"
  shows "readable (Some (Encodes (JArr L))) = []
    \<or> (list_all (\<lambda>e. validateEntry (asJSON e) = Inr True) L
        \<and> readable (Some (Encodes (JArr L))) = sortEntries (map asJSON L)
        \<and> mset (map idOf (readable (Some (Encodes (JArr L))))) = mset (map idOf L))"
proof (cases "list_all (\<lambda>e. validateEntry (asJSON e) = Inr True) L")
  case True
  have "map idOf (map asJSON L) = map idOf L"
    using assms by (simp add: valid_idOf_asJSON)
  then have "mset (map idOf (sortEntries (map asJSON L))) = mset (map idOf L)"
    using mset_sortEntries[of "map asJSON L"] by (metis mset_map)
  with True show ?thesis
    unfolding readable_written by simp
next
  case False
  then show ?thesis
    unfolding readable_written by simp
qed

lemma distinct_ids_written:
  assumes "\<forall>e\<in>set L. validateEntry e = Inr True" and "distinct (map idOf L)"
  shows "distinct (map idOf (readable (Some (Encodes (JArr L)))))"
proof -
  let ?r = "readable (Some (Encodes (JArr L)))"
  from idOf_readable_written[OF assms(1)]
  consider "?r = []" | "mset (map idOf ?r) = mset (map idOf L)"
    by blast
  then show ?thesis
  proof cases
    case 1
    then show ?thesis by (simp only: list.map distinct.simps)
  next
    case 2
    from mset_eq_imp_distinct_iff[OF this] assms(2) show ?thesis
      by blast
  qed
qed

subsection \<open>The first match\<close>

lemma findIndex_found:
  assumes "findIndex P xs \<noteq> - 1"
  shows "0 \<le> findIndex P xs \<and> nat (findIndex P xs) < length xs \<and> P (xs ! nat (findIndex P xs))
    \<and> (\<forall>j < nat (findIndex P xs). \<not> P (xs ! j))"
  using assms
proof (induction xs)
  case Nil
  then show ?case by simp
next
  case (Cons x xs)
  show ?case
  proof (cases "P x")
    case True
    then show ?thesis by simp
  next
    case False
    with Cons.prems have ne: "findIndex P xs \<noteq> - 1"
      by (auto simp: Let_def split: if_splits)
    with False have eq: "findIndex P (x # xs) = findIndex P xs + 1"
      by (simp add: Let_def)
    from Cons.IH[OF ne] have ih: "0 \<le> findIndex P xs"
      "nat (findIndex P xs) < length xs" "P (xs ! nat (findIndex P xs))"
      "\<forall>j < nat (findIndex P xs). \<not> P (xs ! j)"
      by simp_all
    have n: "nat (findIndex P xs + 1) = Suc (nat (findIndex P xs))"
      using ih(1) by simp
    show ?thesis
      unfolding eq n using ih False
      by (auto simp: less_Suc_eq_0_disj)
  qed
qed


lemma find_None_iff_list_ex: "find P xs = None \<longleftrightarrow> \<not> list_ex P xs"
  by (induction xs) auto

subsection \<open>Distinct identifiers are kept\<close>

lemma storedIds_called: "storedIds (called c w) = storedIds w"
  by (simp add: storedIds_def called_fields)

lemma storedIds_wrote: "storedIds (wrote t w) = map idOf (readable (Some t))"
  by (simp add: storedIds_def wrote_fields)

lemma idOf_entriesRead: "set (map idOf (entriesRead w)) \<subseteq> set (storedIds w)"
  using entriesRead_subset[of w] by (auto simp: storedIds_def)

lemma distinct_entriesRead: "distinct (storedIds w) \<Longrightarrow> distinct (map idOf (entriesRead w))"
  using entriesRead_subset[of w] by (auto simp: storedIds_def)

lemma idOf_setProp_id: "validateEntry e = Inr True \<Longrightarrow> idOf (setProp e ''id'' x) = x"
  by (simp add: idOf_def propOf_setProp valid_isObject)

lemma not_list_ex_sameId:
  assumes "\<not> list_ex (sameId x) xs" and "\<forall>e\<in>set xs. validateEntry e = Inr True"
  shows "x \<notin> set (map idOf xs)"
  using assms by (auto simp: list_ex_iff valid_sameId)

lemma list_ex_sameId:
  assumes "\<forall>e\<in>set xs. validateEntry e = Inr True"
  shows "list_ex (sameId x) xs \<longleftrightarrow> x \<in> set (map idOf xs)"
  using assms by (auto simp: list_ex_iff valid_sameId)

lemma saveEntry_keeps_distinct:
  assumes "distinct (storedIds w)" and "JStr (newId now random36) \<notin> set (storedIds w)"
  shows "distinct (storedIds (snd (snd (saveEntry now random36 entry w))))"
proof (cases "validateEntry entry = Inr True")
  case False
  with assms(1) show ?thesis
    by (simp add: saveEntry_invalid)
next
  case True
  define R where "R = entriesRead w"
  define entry1 where "entry1 = (if list_ex (sameId (idOf entry)) R
    then setProp entry ''id'' (JStr (newId now random36)) else entry)"
  define t where "t = Encodes (JArr (R @ [entry1]))"
  have validR: "\<forall>e\<in>set R. validateEntry e = Inr True"
    by (simp add: R_def entriesRead_valid)
  have valid1: "validateEntry entry1 = Inr True"
    using True by (simp add: entry1_def validateEntry_setProp)
  have "idOf entry1 \<notin> set (map idOf R)"
  proof (cases "list_ex (sameId (idOf entry)) R")
    case True
    then have "idOf entry1 = JStr (newId now random36)"
      using \<open>validateEntry entry = Inr True\<close> by (simp add: entry1_def idOf_setProp_id)
    with assms(2) idOf_entriesRead[of w] show ?thesis
      by (auto simp: R_def)
  next
    case False
    then show ?thesis
      using not_list_ex_sameId[OF False validR] by (simp add: entry1_def)
  qed
  then have "distinct (map idOf (R @ [entry1]))"
    using distinct_entriesRead[OF assms(1)] by (simp add: R_def)
  then have written: "distinct (map idOf (readable (Some t)))"
    unfolding t_def using validR valid1 by (intro distinct_ids_written) auto
  have "saveEntry now random36 entry w =
    (if rejecting (called GetItem w) then (Inr False, entry1, called (SetItem t) (called GetItem w))
     else (Inr (list_ex (sameId (idOf entry1)) (entriesRead (wrote t (called GetItem w)))),
           entry1, called GetItem (wrote t (called GetItem w))))"
    by (simp add: saveEntry_eq[OF True] Let_def R_def entry1_def t_def)
  with written assms(1) show ?thesis
    by (simp add: storedIds_called storedIds_wrote)
qed

lemma removeEntry_keeps_distinct:
  assumes "distinct (storedIds w)"
  shows "distinct (storedIds (snd (removeEntry ident w)))"
proof -
  define R where "R = entriesRead w"
  define t where "t = Encodes (JArr (filter (\<lambda>e. \<not> sameId ident e) R))"
  have "distinct (map idOf (filter (\<lambda>e. \<not> sameId ident e) R))"
    using distinct_entriesRead[OF assms] by (simp add: R_def distinct_map_filter)
  then have "distinct (map idOf (readable (Some t)))"
    unfolding t_def by (intro distinct_ids_written) (auto simp: R_def entriesRead_valid)
  with assms show ?thesis
    by (simp add: removeEntry_eq Let_def storedIds_called storedIds_wrote R_def t_def)
qed

lemma updateEntry_keeps_distinct:
  assumes "distinct (storedIds w)"
  shows "distinct (storedIds (snd (updateEntry entry w)))"
proof (cases "validateEntry entry = Inr True")
  case False
  with assms show ?thesis
    by (simp add: updateEntry_invalid)
next
  case True
  define R where "R = entriesRead w"
  define i where "i = findIndex (sameId (idOf entry)) R"
  define t where "t = Encodes (JArr (R[nat i := entry]))"
  have validR: "\<forall>e\<in>set R. validateEntry e = Inr True"
    by (simp add: R_def entriesRead_valid)
  have written: "distinct (map idOf (readable (Some t)))" if "i \<noteq> - 1"
  proof -
    from findIndex_found[OF that[unfolded i_def]]
    have i: "nat i < length R" "sameId (idOf entry) (R ! nat i)"
      by (simp_all add: i_def)
    then have "idOf (R ! nat i) = idOf entry"
      using validR by (simp add: valid_sameId)
    then have "map idOf (R[nat i := entry]) = map idOf R"
      using i(1) by (simp add: map_update list_update_same_conv)
    then have "distinct (map idOf (R[nat i := entry]))"
      using distinct_entriesRead[OF assms] by (simp add: R_def)
    moreover have "\<forall>e\<in>set (R[nat i := entry]). validateEntry e = Inr True"
      using validR True by (auto dest: set_update_subset_insert[THEN subsetD])
    ultimately show ?thesis
      unfolding t_def by (intro distinct_ids_written)
  qed
  with assms show ?thesis
    by (simp add: updateEntry_eq[OF True] Let_def storedIds_called storedIds_wrote R_def i_def t_def)
qed

subsection \<open>An insert that reports success\<close>

lemma readable_written_nonempty:
  assumes "readable (Some (Encodes (JArr L))) \<noteq> []"
  shows "\<forall>e\<in>set L. validateEntry (asJSON e) = Inr True"
    and "readable (Some (Encodes (JArr L))) = sortEntries (map asJSON L)"
  using assms unfolding readable_written by (auto simp: list_all_iff split: if_splits)

lemma list_ex_nonempty: "list_ex P xs \<Longrightarrow> xs \<noteq> []"
  by auto

lemma entriesRead_wrote_nonempty:
  assumes "entriesRead (wrote t w) \<noteq> []"
  shows "\<not> rejecting (wrote t w)" and "entriesRead (wrote t w) = readable (Some t)"
  using assms by (auto simp: entriesRead_def wrote_fields split: if_splits)

lemma saveEntry_success:
  assumes "saveEntry now random36 entry w = (Inr True, entry', w')"
  defines "t \<equiv> Encodes (JArr (entriesRead w @ [entry']))"
  shows "validateEntry entry = Inr True"
    and "entry' = (if list_ex (sameId (idOf entry)) (entriesRead w)
                   then setProp entry ''id'' (JStr (newId now random36)) else entry)"
    and "w' = called GetItem (wrote t (called GetItem w))"
    and "\<not> rejecting (called GetItem w)"
    and "\<not> rejecting (wrote t (called GetItem w))"
    and "\<forall>e\<in>set (entriesRead w @ [entry']). validateEntry (asJSON e) = Inr True"
    and "readable (item w') = sortEntries (map asJSON (entriesRead w @ [entry']))"
proof -
  show valid: "validateEntry entry = Inr True"
    using assms(1) by (rule contrapos_pp) (simp add: saveEntry_invalid)
  define entry1 where "entry1 = (if list_ex (sameId (idOf entry)) (entriesRead w)
    then setProp entry ''id'' (JStr (newId now random36)) else entry)"
  define t1 where "t1 = Encodes (JArr (entriesRead w @ [entry1]))"
  have eq: "saveEntry now random36 entry w =
    (if rejecting (called GetItem w) then (Inr False, entry1, called (SetItem t1) (called GetItem w))
     else (Inr (list_ex (sameId (idOf entry1)) (entriesRead (wrote t1 (called GetItem w)))),
           entry1, called GetItem (wrote t1 (called GetItem w))))"
    by (simp add: saveEntry_eq[OF valid] Let_def entry1_def t1_def)
  with assms(1) show nr: "\<not> rejecting (called GetItem w)"
    by (auto split: if_splits)
  from eq assms(1) nr have e: "entry' = entry1"
    and w': "w' = called GetItem (wrote t1 (called GetItem w))"
    and ex: "list_ex (sameId (idOf entry1)) (entriesRead (wrote t1 (called GetItem w)))"
    by simp_all
  from e show "entry' = (if list_ex (sameId (idOf entry)) (entriesRead w)
      then setProp entry ''id'' (JStr (newId now random36)) else entry)"
    by (simp add: entry1_def)
  have tt: "t = t1"
    by (simp add: t_def t1_def e)
  from w' show "w' = called GetItem (wrote t (called GetItem w))"
    by (simp add: tt)
  from ex have ne: "entriesRead (wrote t (called GetItem w)) \<noteq> []"
    unfolding tt by (rule list_ex_nonempty)
  from entriesRead_wrote_nonempty[OF ne]
  have r: "entriesRead (wrote t (called GetItem w)) = readable (Some t)"
    by simp
  from entriesRead_wrote_nonempty[OF ne]
  show "\<not> rejecting (wrote t (called GetItem w))"
    by simp
  from ne r have "readable (Some (Encodes (JArr (entriesRead w @ [entry'])))) \<noteq> []"
    by (simp add: t_def)
  from readable_written_nonempty[OF this]
  show "\<forall>e\<in>set (entriesRead w @ [entry']). validateEntry (asJSON e) = Inr True"
    and "readable (item w') = sortEntries (map asJSON (entriesRead w @ [entry']))"
    by (simp_all add: w' tt[symmetric] called_fields wrote_fields t_def)
qed

subsection \<open>Evaluating the operations on the samples\<close>

lemma newId_sample: "newId 1700000000000 ''0.4fzyo82mvyr'' = ''entry_loyw3v28_4fzyo82mv''"
  by (simp add: newId_def digits36_def)

lemma sample_setProp_id: "setProp (sample i a t) ''id'' (JStr j) = sample j a t"
  by (simp add: sample_def)

lemma sample_setProp_address: "setProp (sample i a t) ''address'' (JStr b) = sample i b t"
  by (simp add: sample_def)

lemma entriesRead_stored:
  assumes "rejects w = []" and "item w = Some (Encodes (JArr L))"
    and "\<forall>e\<in>set L. validateEntry e = Inr True \<and> asJSON e = e"
  shows "entriesRead w = sortEntries L"
  using assms readable_written_stable[of L] by (simp add: entriesRead_working)

lemmas world_simps = called_fields wrote_fields rejecting_def holding_def emptyWorld_def

lemmas sample_simps = sample_valid sample_stable sample_fields sameId_sample
  sample_setProp_id sample_setProp_address sortEntries_def compareFn_def

subsection \<open>Two inserts with one identifier\<close>

lemma saveEntry_success_ids:
  assumes "saveEntry now random36 entry w = (Inr True, entry', w')"
  shows "mset (storedIds w') = add_mset (idOf entry') (mset (map idOf (entriesRead w)))"
    and "validateEntry entry' = Inr True"
proof -
  note s = saveEntry_success[OF assms]
  show valid': "validateEntry entry' = Inr True"
    using s(1,2) by (simp add: validateEntry_setProp)
  have "map idOf (map asJSON (entriesRead w @ [entry'])) = map idOf (entriesRead w @ [entry'])"
    using valid' by (simp add: valid_idOf_asJSON entriesRead_valid)
  then have "mset (map idOf (sortEntries (map asJSON (entriesRead w @ [entry']))))
      = mset (map idOf (entriesRead w @ [entry']))"
    using mset_sortEntries[of "map asJSON (entriesRead w @ [entry'])"] by (metis mset_map)
  then show "mset (storedIds w') = add_mset (idOf entry') (mset (map idOf (entriesRead w)))"
    by (simp add: storedIds_def s(7))
qed

lemma saveEntry_success_working:
  assumes "saveEntry now random36 entry w = (Inr True, entry', w')" and "rejects w = []"
  shows "rejects w' = []"
  using saveEntry_success(3)[OF assms(1)] assms(2) by (simp add: called_fields wrote_fields)

lemma two_inserts:
  assumes w: "rejects w = []"
    and same: "idOf a = idOf b"
    and new: "idOf a \<notin> set (storedIds w)"
    and s1: "saveEntry n1 r1 a w = (Inr True, a', w1)"
    and s2: "saveEntry n2 r2 b w1 = (Inr True, b', w2)"
    and g: "JStr (newId n2 r2) \<noteq> idOf a"
  shows "a' = a" and "idOf b' = JStr (newId n2 r2)" and "idOf a' \<noteq> idOf b'"
    and "idOf a' \<in> set (storedIds w2)" and "idOf b' \<in> set (storedIds w2)"
    and "length (storedIds w2) = length (storedIds w) + 2"
proof -
  have r: "map idOf (entriesRead w) = storedIds w"
    using w by (simp add: entriesRead_working storedIds_def)
  have "\<not> list_ex (sameId (idOf a)) (entriesRead w)"
    using new r by (simp add: list_ex_sameId entriesRead_valid)
  with saveEntry_success(2)[OF s1] show a: "a' = a"
    by simp
  have w1: "rejects w1 = []"
    using s1 w by (rule saveEntry_success_working)
  have r1: "map idOf (entriesRead w1) = storedIds w1"
    using w1 by (simp add: entriesRead_working storedIds_def)
  have ids1: "mset (storedIds w1) = add_mset (idOf a) (mset (storedIds w))"
    using saveEntry_success_ids(1)[OF s1] by (simp add: r a)
  then have "idOf b \<in> set (storedIds w1)"
    using same by (metis set_mset_mset union_single_eq_member)
  then have "list_ex (sameId (idOf b)) (entriesRead w1)"
    using r1 by (simp add: list_ex_sameId entriesRead_valid)
  with saveEntry_success(1,2)[OF s2] show b: "idOf b' = JStr (newId n2 r2)"
    by (simp add: idOf_setProp_id)
  with a g show "idOf a' \<noteq> idOf b'"
    by simp
  have ids2: "mset (storedIds w2) = add_mset (idOf b') (add_mset (idOf a) (mset (storedIds w)))"
    using saveEntry_success_ids(1)[OF s2] by (simp add: r1 ids1)
  then have "set (storedIds w2) = insert (idOf b') (insert (idOf a) (set (storedIds w)))"
    by (metis set_mset_add_mset_insert set_mset_mset)
  then show "idOf a' \<in> set (storedIds w2)" and "idOf b' \<in> set (storedIds w2)"
    by (simp_all add: a)
  from ids2 have "size (mset (storedIds w2)) = size (mset (storedIds w)) + 2"
    by simp
  then show "length (storedIds w2) = length (storedIds w) + 2"
    by simp
qed

subsection \<open>Fetching what was inserted\<close>

lemma find_only:
  assumes "e \<in> set xs" and "P e" and "\<forall>y\<in>set xs. P y \<longrightarrow> y = e"
  shows "find P xs = Some e"
  using assms
proof (induction xs)
  case Nil
  then show ?case by simp
next
  case (Cons x xs)
  show ?case
  proof (cases "P x")
    case True
    with Cons.prems(3) have "x = e"
      by simp
    with True show ?thesis
      by simp
  next
    case False
    with Cons.prems(1,2) have "e \<in> set xs"
      by auto
    moreover have "\<forall>y\<in>set xs. P y \<longrightarrow> y = e"
      using Cons.prems(3) by simp
    ultimately have "find P xs = Some e"
      using Cons.prems(2) by (intro Cons.IH)
    with False show ?thesis
      by simp
  qed
qed

lemma find_list_ex:
  assumes "list_ex P xs"
  shows "\<exists>e. find P xs = Some e \<and> e \<in> set xs \<and> P e"
  using assms by (induction xs) auto

lemma saveEntry_success_fresh:
  assumes "saveEntry now random36 entry w = (Inr True, entry', w')"
    and "list_ex (sameId (idOf entry)) (entriesRead w)
         \<longrightarrow> JStr (newId now random36) \<notin> set (storedIds w)"
  shows "idOf entry' \<notin> set (map idOf (entriesRead w))"
proof (cases "list_ex (sameId (idOf entry)) (entriesRead w)")
  case True
  note s = saveEntry_success[OF assms(1)]
  from True s(1,2) have "idOf entry' = JStr (newId now random36)"
    by (simp add: idOf_setProp_id)
  with True assms(2) idOf_entriesRead[of w] show ?thesis
    by auto
next
  case False
  note s = saveEntry_success[OF assms(1)]
  from False s(2) have "entry' = entry"
    by simp
  with False show ?thesis
    by (intro not_list_ex_sameId) (simp_all add: entriesRead_valid)
qed

lemma asJSON_properties_length: "length (asJSON_properties kvs) \<le> length kvs"
  by (induction kvs) auto

lemma asJSON_properties_stable_Cons:
  assumes "asJSON_properties ((k, v) # kvs) = (k, v) # kvs"
  shows "v \<noteq> JUndefined" and "asJSON v = v" and "asJSON_properties kvs = kvs"
proof -
  show v: "v \<noteq> JUndefined"
  proof
    assume "v = JUndefined"
    with assms have "length (asJSON_properties kvs) = Suc (length kvs)"
      by simp
    with asJSON_properties_length[of kvs] show False
      by simp
  qed
  with assms show "asJSON v = v" and "asJSON_properties kvs = kvs"
    by simp_all
qed

lemma asJSON_assign_stable:
  "asJSON_properties kvs = kvs \<Longrightarrow> asJSON_properties (assign kvs k (JStr s)) = assign kvs k (JStr s)"
proof (induction kvs)
  case Nil
  then show ?case by simp
next
  case (Cons p kvs)
  obtain k' v where p: "p = (k', v)"
    by (cases p)
  from asJSON_properties_stable_Cons[OF Cons.prems[unfolded p]] Cons.IH
  show ?case
    by (simp add: p)
qed

lemma asJSON_setProp_stable:
  "asJSON e = e \<Longrightarrow> asJSON (setProp e k (JStr s)) = setProp e k (JStr s)"
  by (cases e) (simp_all add: asJSON_assign_stable)

subsection \<open>Delete\<close>

lemma absent_after_filter:
  assumes "\<forall>e\<in>set R. validateEntry e = Inr True"
  shows "\<not> list_ex (sameId ident) (readable (Some (Encodes (JArr (filter (\<lambda>e. \<not> sameId ident e) R)))))"
proof -
  let ?F = "filter (\<lambda>e. \<not> sameId ident e) R"
  have "\<not> sameId ident (asJSON e)" if "e \<in> set ?F" "validateEntry (asJSON e) = Inr True" for e
  proof -
    from that(1) assms have "validateEntry e = Inr True" "\<not> sameId ident e"
      by simp_all
    then have "idOf (asJSON e) \<noteq> ident"
      by (simp add: valid_idOf_asJSON valid_sameId)
    with that(2) show ?thesis
      by (simp add: valid_sameId)
  qed
  then show ?thesis
    unfolding readable_written by (auto simp: list_ex_iff list_all_iff set_sortEntries)
qed

lemma entriesRead_mono:
  "\<not> list_ex P (readable (item w)) \<Longrightarrow> \<not> list_ex P (entriesRead w)"
  by (simp add: entriesRead_def)

lemma removeEntry_not_found:
  assumes "\<not> list_ex (sameId ident) (readable (item w))"
  shows "removeEntry ident w =
    (Inr False, if \<not> truthy ident \<or> typeof ident \<noteq> ''string'' then w else called GetItem w)"
  using entriesRead_mono[OF assms] by (simp add: removeEntry_eq)

lemma removeEntry_success:
  assumes "fst (removeEntry ident w) = Inr True"
  defines "t \<equiv> Encodes (JArr (filter (\<lambda>e. \<not> sameId ident e) (entriesRead w)))"
  shows "truthy ident" and "list_ex (sameId ident) (entriesRead w)"
    and "\<not> rejecting (called GetItem w)"
    and "snd (removeEntry ident w) = called GetItem (wrote t (called GetItem w))"
    and "\<not> list_ex (sameId ident) (entriesRead (wrote t (called GetItem w)))"
  using assms(1) unfolding t_def
  by (auto simp: removeEntry_eq Let_def split: if_splits)

lemma length_filter_unique:
  "distinct (map f xs) \<Longrightarrow> x \<in> set (map f xs)
   \<Longrightarrow> Suc (length (filter (\<lambda>e. f e \<noteq> x) xs)) = length xs"
proof (induction xs)
  case Nil
  then show ?case by simp
next
  case (Cons y ys)
  show ?case
  proof (cases "f y = x")
    case True
    have "f e \<noteq> x" if "e \<in> set ys" for e
    proof
      assume "f e = x"
      with that True have "f y \<in> f ` set ys"
        by (metis imageI)
      with Cons.prems(1) show False
        by simp
    qed
    then have "\<forall>e\<in>set ys. f e \<noteq> x"
      by blast
    then have "filter (\<lambda>e. f e \<noteq> x) ys = ys"
      by simp
    with True show ?thesis
      by simp
  next
    case False
    with Cons show ?thesis
      by auto
  qed
qed

lemma readable_filter:
  "readable (Some (Encodes (JArr (filter P (readable t))))) = sortEntries (filter P (readable t))"
  by (intro readable_written_stable) (auto simp: readable_valid readable_stable)

lemma removeEntry_count:
  assumes "fst (removeEntry ident w) = Inr True" and "rejects w = []"
    and "distinct (storedIds w)"
  shows "Suc (length (entriesRead (snd (removeEntry ident w)))) = length (entriesRead w)"
proof -
  let ?R = "readable (item w)"
  note s = removeEntry_success[OF assms(1)]
  have R: "entriesRead w = ?R"
    using assms(2) by (rule entriesRead_working)
  have valid: "\<forall>e\<in>set ?R. validateEntry e = Inr True"
    by (simp add: readable_valid)
  then have f: "filter (\<lambda>e. \<not> sameId ident e) ?R = filter (\<lambda>e. idOf e \<noteq> ident) ?R"
    by (intro filter_cong) (simp_all add: valid_sameId)
  have "ident \<in> set (map idOf ?R)"
    using s(2) valid by (simp add: R list_ex_sameId)
  then have "Suc (length (filter (\<lambda>e. idOf e \<noteq> ident) ?R)) = length ?R"
    using assms(3) by (intro length_filter_unique) (simp_all add: storedIds_def)
  moreover have "entriesRead (snd (removeEntry ident w))
      = sortEntries (filter (\<lambda>e. \<not> sameId ident e) ?R)"
    using assms(2) by (simp add: s(4) R entriesRead_def rejecting_def called_fields wrote_fields
        readable_filter)
  ultimately show ?thesis
    by (simp add: R f length_sortEntries)
qed

lemma removeEntry_count_general:
  assumes "fst (removeEntry ident w) = Inr True" and "rejects w = []"
  shows "length (entriesRead (snd (removeEntry ident w)))
           + length (filter (sameId ident) (readable (item w)))
         = length (entriesRead w)"
proof -
  let ?R = "readable (item w)"
  note s = removeEntry_success[OF assms(1)]
  have R: "entriesRead w = ?R"
    using assms(2) by (rule entriesRead_working)
  have "entriesRead (snd (removeEntry ident w))
      = sortEntries (filter (\<lambda>e. \<not> sameId ident e) ?R)"
    using assms(2) by (simp add: s(4) R entriesRead_def rejecting_def called_fields wrote_fields
        readable_filter)
  then show ?thesis
    using sum_length_filter_compl[of "sameId ident" ?R] by (simp add: R length_sortEntries)
qed

lemma removeEntry_works:
  assumes "rejects w = []" and "truthy ident" and "list_ex (sameId ident) (readable (item w))"
  shows "fst (removeEntry ident w) = Inr True"
proof -
  have R: "entriesRead w = readable (item w)"
    using assms(1) by (rule entriesRead_working)
  obtain e where "e \<in> set (readable (item w))" "sameId ident e"
    using assms(3) by (auto simp: list_ex_iff)
  then have "typeof ident = ''string''"
    using valid_fields(1)[of e] by (auto simp: readable_valid valid_sameId idOf_def)
  moreover have "\<not> list_ex (sameId ident)
      (entriesRead (wrote (Encodes (JArr (filter (\<lambda>e. \<not> sameId ident e) (readable (item w)))))
         (called GetItem w)))"
    using absent_after_filter[of "readable (item w)" ident]
    by (simp add: entriesRead_def wrote_fields readable_valid)
  ultimately show ?thesis
    using assms by (simp add: removeEntry_eq Let_def R rejecting_def called_fields)
qed

subsection \<open>Update\<close>









subsection \<open>Numbers that JSON cannot hold\<close>

lemma persistedValid_written:
  "item w = Some (Encodes (JArr L))
   \<Longrightarrow> persistedValid w = list_all (\<lambda>e. validateEntry (asJSON e) = Inr True) L"
  by (simp add: persistedValid_def asJSON_elements_map list_all_iff)

lemma asJSON_required_number:
  assumes "validateEntry e = Inr True"
    and "name = ''latitude'' \<or> name = ''longitude'' \<or> name = ''createdAt''"
    and "propOf e name = JNum n" and "\<not> isFinite n"
  shows "validateEntry (asJSON e) = Inr False"
proof -
  obtain kvs where e: "e = JObj kvs"
    using valid_object[OF assms(1)] by blast
  from assms(3,4) have "lookup (asJSON_properties kvs) name = JNull"
    by (simp add: e lookup_asJSON)
  with assms(2) show ?thesis
    by (auto simp: e validateEntry_object requiredFields_def)
qed

text \<open>
  A value that the validator rejects is never written: insert and update give
  \<^verbatim>\<open>false\<close> before any call to the store, and the world is as it was. And whatever
  is stored, every entry that a read returns passes the validator
  (\<open>entriesRead_valid\<close>).
\<close>

lemma rejected_value_not_written:
  assumes "validateEntry entry \<noteq> Inr True"
  shows "saveEntry now random36 entry w = (Inr False, entry, w)"
    and "updateEntry entry w = (Inr False, w)"
  using assms by (simp_all add: saveEntry_invalid updateEntry_invalid)

subsection \<open>Which of the calls rejects\<close>

lemma rejectsAt_0: "rejectsAt 0 w = rejecting w"
  by (cases "rejects w") (simp_all add: rejectsAt_def rejecting_def)

lemma rejectsAt_called: "rejectsAt k (called c w) = rejectsAt (Suc k) w"
  by (cases "rejects w") (simp_all add: rejectsAt_def called_fields)

lemma rejectsAt_wrote: "rejectsAt k (wrote t w) = rejectsAt (Suc k) w"
  by (cases "rejects w") (simp_all add: rejectsAt_def wrote_fields)

lemma rejecting_second: "rejecting (called c w) = rejectsAt 1 w"
  using rejectsAt_called[of 0 c w] by (simp add: rejectsAt_0)

lemma rejecting_third: "rejecting (wrote t (called c w)) = rejectsAt 2 w"
  using rejectsAt_wrote[of 0 t "called c w"] rejectsAt_called[of 1 c w]
  by (simp add: rejectsAt_0 numeral_2_eq_2)

lemma saveEntry_blind:
  assumes "validateEntry entry = Inr True" and "rejectsAt 0 w" and "\<not> rejectsAt 1 w"
  shows "snd (saveEntry now random36 entry w)
      = (entry, called GetItem (wrote (Encodes (JArr [entry])) (called GetItem w)))"
    and "fst (saveEntry now random36 entry w)
      = Inr (\<not> rejectsAt 2 w \<and> validateEntry (asJSON entry) = Inr True)"
proof -
  have r: "entriesRead w = []"
    using assms(2) by (simp add: entriesRead_def rejectsAt_0)
  have nr: "\<not> rejecting (called GetItem w)"
    using assms(3) by (simp add: rejecting_second)
  let ?w2 = "wrote (Encodes (JArr [entry])) (called GetItem w)"
  have eq: "saveEntry now random36 entry w
      = (Inr (list_ex (sameId (idOf entry)) (entriesRead ?w2)), entry, called GetItem ?w2)"
    using nr by (simp add: saveEntry_eq[OF assms(1)] r Let_def)
  then show "snd (saveEntry now random36 entry w) = (entry, called GetItem ?w2)"
    by simp
  have "list_ex (sameId (idOf entry)) (entriesRead ?w2)
      \<longleftrightarrow> \<not> rejectsAt 2 w \<and> validateEntry (asJSON entry) = Inr True"
  proof (cases "validateEntry (asJSON entry) = Inr True")
    case True
    then have "readable (Some (Encodes (JArr [entry]))) = [asJSON entry]"
      unfolding readable_written by (simp add: sortEntries_def)
    moreover have "sameId (idOf entry) (asJSON entry)"
      using True assms(1) by (simp add: valid_sameId valid_idOf_asJSON)
    ultimately show ?thesis
      using True by (simp add: entriesRead_def rejecting_third wrote_fields)
  next
    case False
    then have "readable (Some (Encodes (JArr [entry]))) = []"
      unfolding readable_written by simp
    with False show ?thesis
      by (simp add: entriesRead_def wrote_fields)
  qed
  with eq show "fst (saveEntry now random36 entry w)
      = Inr (\<not> rejectsAt 2 w \<and> validateEntry (asJSON entry) = Inr True)"
    by simp
qed

lemma removeEntry_unverified:
  assumes "\<not> rejectsAt 0 w" and "\<not> rejectsAt 1 w" and "rejectsAt 2 w"
    and "truthy ident" and "list_ex (sameId ident) (readable (item w))"
  shows "fst (removeEntry ident w) = Inr True"
proof -
  have R: "entriesRead w = readable (item w)"
    using assms(1) by (simp add: entriesRead_def rejectsAt_0)
  obtain e where "e \<in> set (readable (item w))" "sameId ident e"
    using assms(5) by (auto simp: list_ex_iff)
  then have "typeof ident = ''string''"
    using valid_fields(1)[of e] by (auto simp: readable_valid valid_sameId idOf_def)
  moreover have "\<not> rejecting w" "\<not> rejecting (called GetItem w)"
    using assms(1,2) by (simp_all add: rejectsAt_0 rejecting_second)
  moreover have "entriesRead (wrote t (called GetItem w)) = []" for t
    using assms(3) by (simp add: entriesRead_def rejecting_third)
  ultimately show ?thesis
    using assms(4,5) by (simp add: removeEntry_eq Let_def R)
qed

lemma clearAllEntries_unverified:
  assumes "\<not> rejectsAt 0 w" and "rejectsAt 1 w"
  shows "fst (clearAllEntries w) = Inr True"
proof -
  have "rejecting ((called RemoveItem w)\<lparr>item := None\<rparr>)"
    using assms(2) rejecting_second[of RemoveItem w] by (simp add: rejecting_def)
  then show ?thesis
    using assms(1) by (simp add: clearAllEntries_eq rejectsAt_0 entriesRead_def)
qed

lemma third_rejects:
  assumes "rejectsAt 2 w"
  shows "fst (saveEntry now random36 entry w) = Inr False"
    and "fst (updateEntry entry w) = Inr False"
proof -
  have e: "entriesRead (wrote t (called GetItem w)) = []" for t
    using assms by (simp add: entriesRead_def rejecting_third)
  show "fst (saveEntry now random36 entry w) = Inr False"
  proof (cases "validateEntry entry = Inr True")
    case True
    then show ?thesis by (simp add: saveEntry_eq Let_def e)
  next
    case False
    then show ?thesis by (simp add: saveEntry_invalid)
  qed
  show "fst (updateEntry entry w) = Inr False"
  proof (cases "validateEntry entry = Inr True")
    case True
    then show ?thesis by (simp add: updateEntry_eq Let_def e)
  next
    case False
    then show ?thesis by (simp add: updateEntry_invalid)
  qed
qed

section \<open>The claims\<close>

text \<open>
  C1, as amended. When the stored identifiers are pairwise distinct, they are so after
  every update and every delete, and after every insert for which the identifier that
  a collision would generate is not among the stored ones; this holds whether or not
  the operation reports success. When two valid entries with the same identifier, which
  is not stored yet, are inserted one after the other into a store whose calls succeed,
  both inserts report success, and the identifier generated for the second differs from
  the shared one, then the first entry keeps its identifier, the second gets the
  generated one, both identifiers are stored, and the collection has grown by two.
\<close>

theorem ids_stay_distinct:
  "(distinct (storedIds w) \<longrightarrow>
       (JStr (newId now random36) \<notin> set (storedIds w)
          \<longrightarrow> distinct (storedIds (snd (snd (saveEntry now random36 entry w)))))
       \<and> distinct (storedIds (snd (updateEntry entry w)))
       \<and> distinct (storedIds (snd (removeEntry ident w))))
   \<and> (rejects w = [] \<and> idOf a = idOf b \<and> idOf a \<notin> set (storedIds w)
        \<and> saveEntry n1 r1 a w = (Inr True, a', w1)
        \<and> saveEntry n2 r2 b w1 = (Inr True, b', w2)
        \<and> JStr (newId n2 r2) \<noteq> idOf a
        \<longrightarrow> a' = a \<and> idOf b' = JStr (newId n2 r2) \<and> idOf a' \<noteq> idOf b'
            \<and> idOf a' \<in> set (storedIds w2) \<and> idOf b' \<in> set (storedIds w2)
            \<and> length (storedIds w2) = length (storedIds w) + 2)"
  using saveEntry_keeps_distinct[of w now random36 entry]
    updateEntry_keeps_distinct[of w entry] removeEntry_keeps_distinct[of w ident]
    two_inserts[of w a b n1 r1 a' w1 n2 r2 b' w2]
  by blast

text \<open>
  The theorem on a store that holds one entry: an entry with a new identifier is
  inserted, then a second entry with the same identifier, at a time and with a random
  number that give the identifier \<open>entry_loyw3v28_4fzyo82mv\<close>.
\<close>

theorem ids_stay_distinct_witness:
  "saveEntry 1699999999999 ''0.7'' (sample ''a'' ''Porto'' 10) (holding [sample ''b'' ''Faro'' 20])
     = (Inr True, sample ''a'' ''Porto'' 10,
        called GetItem (wrote (Encodes (JArr [sample ''b'' ''Faro'' 20, sample ''a'' ''Porto'' 10]))
          (called GetItem (holding [sample ''b'' ''Faro'' 20]))))
   \<and> saveEntry 1700000000000 ''0.4fzyo82mvyr'' (sample ''a'' ''Braga'' 30)
       (called GetItem (wrote (Encodes (JArr [sample ''b'' ''Faro'' 20, sample ''a'' ''Porto'' 10]))
          (called GetItem (holding [sample ''b'' ''Faro'' 20]))))
     = (Inr True, sample ''entry_loyw3v28_4fzyo82mv'' ''Braga'' 30,
        called GetItem (wrote (Encodes (JArr [sample ''b'' ''Faro'' 20, sample ''a'' ''Porto'' 10,
            sample ''entry_loyw3v28_4fzyo82mv'' ''Braga'' 30]))
          (called GetItem (called GetItem (wrote (Encodes (JArr [sample ''b'' ''Faro'' 20,
            sample ''a'' ''Porto'' 10])) (called GetItem (holding [sample ''b'' ''Faro'' 20])))))))
   \<and> distinct (storedIds (called GetItem (wrote (Encodes (JArr [sample ''b'' ''Faro'' 20,
            sample ''a'' ''Porto'' 10, sample ''entry_loyw3v28_4fzyo82mv'' ''Braga'' 30]))
          (called GetItem (called GetItem (wrote (Encodes (JArr [sample ''b'' ''Faro'' 20,
            sample ''a'' ''Porto'' 10])) (called GetItem (holding [sample ''b'' ''Faro'' 20]))))))))
   \<and> length (storedIds (called GetItem (wrote (Encodes (JArr [sample ''b'' ''Faro'' 20,
            sample ''a'' ''Porto'' 10, sample ''entry_loyw3v28_4fzyo82mv'' ''Braga'' 30]))
          (called GetItem (called GetItem (wrote (Encodes (JArr [sample ''b'' ''Faro'' 20,
            sample ''a'' ''Porto'' 10])) (called GetItem (holding [sample ''b'' ''Faro'' 20])))))))) = 3
   \<and> distinct (storedIds (snd (updateEntry (sample ''b'' ''Tavira'' 20) (holding [sample ''b'' ''Faro'' 20]))))
   \<and> distinct (storedIds (snd (removeEntry (JStr ''b'') (holding [sample ''b'' ''Faro'' 20]))))"
proof -
  let ?w = "holding [sample ''b'' ''Faro'' 20]"
  let ?w1 = "called GetItem (wrote (Encodes (JArr [sample ''b'' ''Faro'' 20, sample ''a'' ''Porto'' 10]))
          (called GetItem ?w))"
  let ?w2 = "called GetItem (wrote (Encodes (JArr [sample ''b'' ''Faro'' 20, sample ''a'' ''Porto'' 10,
            sample ''entry_loyw3v28_4fzyo82mv'' ''Braga'' 30])) (called GetItem ?w1))"
  have s: "storedIds ?w = [JStr ''b'']"
    by (simp add: storedIds_def readable_written_stable world_simps sample_simps)
  have run1: "saveEntry 1699999999999 ''0.7'' (sample ''a'' ''Porto'' 10) ?w
      = (Inr True, sample ''a'' ''Porto'' 10, ?w1)"
    by (simp add: saveEntry_eq Let_def entriesRead_stored world_simps sample_simps idOf_def)
  have run2: "saveEntry 1700000000000 ''0.4fzyo82mvyr'' (sample ''a'' ''Braga'' 30) ?w1
      = (Inr True, sample ''entry_loyw3v28_4fzyo82mv'' ''Braga'' 30, ?w2)"
    by (simp add: saveEntry_eq Let_def newId_sample entriesRead_stored world_simps sample_simps)
  have fresh: "JStr (newId 1699999999999 ''0.7'') \<notin> set (storedIds ?w)"
    unfolding s by (simp add: newId_def)
  have fresh1: "JStr (newId 1700000000000 ''0.4fzyo82mvyr'') \<notin> set (storedIds ?w1)"
    by (simp add: newId_sample storedIds_def readable_written_stable world_simps sample_simps)
  have d1: "distinct (storedIds ?w1)"
    using ids_stay_distinct[where w = ?w and now = 1699999999999 and ?random36.0 = "''0.7''"
        and entry = "sample ''a'' ''Porto'' 10"] fresh s run1
    by simp
  have "distinct (storedIds ?w2)"
    using ids_stay_distinct[where w = ?w1 and now = 1700000000000
        and ?random36.0 = "''0.4fzyo82mvyr''" and entry = "sample ''a'' ''Braga'' 30"]
      fresh1 d1 run2
    by simp
  moreover have "length (storedIds ?w2) = 3"
    using ids_stay_distinct[where w = ?w and a = "sample ''a'' ''Porto'' 10"
        and b = "sample ''a'' ''Braga'' 30" and ?n1.0 = 1699999999999 and ?r1.0 = "''0.7''"
        and a' = "sample ''a'' ''Porto'' 10" and ?w1.0 = ?w1 and ?n2.0 = 1700000000000
        and ?r2.0 = "''0.4fzyo82mvyr''"
        and b' = "sample ''entry_loyw3v28_4fzyo82mv'' ''Braga'' 30" and ?w2.0 = ?w2]
      run1 run2 s
    by (simp add: newId_sample sample_fields world_simps)
  moreover have "distinct (storedIds (snd (updateEntry (sample ''b'' ''Tavira'' 20) ?w)))"
    "distinct (storedIds (snd (removeEntry (JStr ''b'') ?w)))"
    using ids_stay_distinct[where w = ?w and entry = "sample ''b'' ''Tavira'' 20"
        and ident = "JStr ''b''"] s
    by simp_all
  ultimately show ?thesis
    using run1 run2 by simp
qed

text \<open>
  C1 as stated fails when the generated identifier is already stored. The store holds
  two entries with distinct identifiers, the second of which is
  \<open>entry_loyw3v28_4fzyo82mv\<close>. An entry with the identifier of the first is inserted
  when \<^verbatim>\<open>Date.now()\<close> is 1700000000000 and \<^verbatim>\<open>Math.random().toString(36)\<close> is
  \<^verbatim>\<open>0.4fzyo82mvyr\<close>: the insert reports success and two stored entries share an
  identifier.
\<close>

theorem ids_distinct_counterexample:
  "distinct (storedIds (holding [sample ''a'' ''Porto'' 10, sample ''entry_loyw3v28_4fzyo82mv'' ''Faro'' 20]))
   \<and> fst (saveEntry 1700000000000 ''0.4fzyo82mvyr'' (sample ''a'' ''Braga'' 30)
          (holding [sample ''a'' ''Porto'' 10, sample ''entry_loyw3v28_4fzyo82mv'' ''Faro'' 20])) = Inr True
   \<and> storedIds (snd (snd (saveEntry 1700000000000 ''0.4fzyo82mvyr'' (sample ''a'' ''Braga'' 30)
          (holding [sample ''a'' ''Porto'' 10, sample ''entry_loyw3v28_4fzyo82mv'' ''Faro'' 20]))))
       = [JStr ''entry_loyw3v28_4fzyo82mv'', JStr ''entry_loyw3v28_4fzyo82mv'', JStr ''a'']
   \<and> \<not> distinct (storedIds (snd (snd (saveEntry 1700000000000 ''0.4fzyo82mvyr'' (sample ''a'' ''Braga'' 30)
          (holding [sample ''a'' ''Porto'' 10, sample ''entry_loyw3v28_4fzyo82mv'' ''Faro'' 20])))))"
proof -
  let ?w = "holding [sample ''a'' ''Porto'' 10, sample ''entry_loyw3v28_4fzyo82mv'' ''Faro'' 20]"
  have r: "entriesRead ?w = [sample ''entry_loyw3v28_4fzyo82mv'' ''Faro'' 20, sample ''a'' ''Porto'' 10]"
    by (simp add: entriesRead_holding sample_simps)
  have s: "storedIds ?w = [JStr ''entry_loyw3v28_4fzyo82mv'', JStr ''a'']"
    using r by (simp add: storedIds_def entriesRead_def world_simps sample_simps)
  have run: "saveEntry 1700000000000 ''0.4fzyo82mvyr'' (sample ''a'' ''Braga'' 30) ?w =
    (Inr True, sample ''entry_loyw3v28_4fzyo82mv'' ''Braga'' 30,
     called GetItem (wrote (Encodes (JArr [sample ''entry_loyw3v28_4fzyo82mv'' ''Faro'' 20,
        sample ''a'' ''Porto'' 10, sample ''entry_loyw3v28_4fzyo82mv'' ''Braga'' 30])) (called GetItem ?w)))"
    by (simp add: saveEntry_eq r Let_def newId_sample entriesRead_stored world_simps sample_simps)
  show ?thesis
    unfolding run s
    by (simp add: storedIds_def readable_written_stable world_simps sample_simps)
qed

text \<open>
  C2. Reading all entries never raises. It gives the empty sequence when the call to the
  store rejects, when nothing is stored under the key, when the stored string does not
  decode, when the decoded value is no array, and when one element of the decoded array
  fails the validator, whatever the other elements are. Otherwise it gives exactly the
  decoded entries, each once, ordered by \<^verbatim>\<open>createdAt\<close> from the newest to the oldest.
\<close>

theorem getEntries_result:
  "(\<exists>ys. fst (getEntries w) = Inr ys)
   \<and> (rejecting w \<longrightarrow> fst (getEntries w) = Inr [])
   \<and> (item w = None \<longrightarrow> fst (getEntries w) = Inr [])
   \<and> (item w = Some EmptyText \<or> item w = Some Malformed \<longrightarrow> fst (getEntries w) = Inr [])
   \<and> (item w = Some (Encodes v) \<and> \<not> isArray (asJSON v) \<longrightarrow> fst (getEntries w) = Inr [])
   \<and> (item w = Some (Encodes v) \<and> asJSON v = JArr xs
        \<and> (\<exists>x\<in>set xs. validateEntry x \<noteq> Inr True) \<longrightarrow> fst (getEntries w) = Inr [])
   \<and> (\<not> rejecting w \<and> item w = Some (Encodes v) \<and> asJSON v = JArr xs
        \<and> (\<forall>x\<in>set xs. validateEntry x = Inr True)
        \<longrightarrow> fst (getEntries w) = Inr (sortEntries xs)
            \<and> mset (sortEntries xs) = mset xs \<and> newestFirst (sortEntries xs))"
proof -
  have notarr: "validateEntries u = Inr False" if "\<not> isArray u" for u
    using that by (cases u) simp_all
  have sorted: "newestFirst (sortEntries xs)"
    if "item w = Some (Encodes v)" "asJSON v = JArr xs" "\<forall>x\<in>set xs. validateEntry x = Inr True"
  proof -
    from that have "readable (item w) = sortEntries xs"
      by (simp add: readable.simps(4) every_validateEntry_eq list_all_iff)
    then show ?thesis
      using readable_newestFirst[of "item w"] by simp
  qed
  show ?thesis
    by (auto simp: getEntries_eq readable.simps(4) notarr every_validateEntry_eq list_all_iff
        mset_sortEntries sorted)
qed

theorem getEntries_result_witness:
  "fst (getEntries (emptyWorld\<lparr>rejects := [True]\<rparr>)) = Inr []
   \<and> fst (getEntries emptyWorld) = Inr []
   \<and> fst (getEntries (emptyWorld\<lparr>item := Some Malformed\<rparr>)) = Inr []
   \<and> fst (getEntries (emptyWorld\<lparr>item := Some (Encodes (JObj []))\<rparr>)) = Inr []
   \<and> fst (getEntries (holding [sample ''a'' ''Porto'' 10, JObj [(''id'', JStr ''b'')]])) = Inr []
   \<and> fst (getEntries (holding [sample ''a'' ''Porto'' 10, sample ''b'' ''Faro'' 30, sample ''c'' ''Braga'' 20]))
       = Inr [sample ''b'' ''Faro'' 30, sample ''c'' ''Braga'' 20, sample ''a'' ''Porto'' 10]"
proof -
  let ?bad = "JObj [(''id'', JStr ''b'')]"
  let ?xs = "[sample ''a'' ''Porto'' 10, sample ''b'' ''Faro'' 30, sample ''c'' ''Braga'' 20]"
  have bad: "validateEntry ?bad \<noteq> Inr True"
    by (simp add: validateEntry_object requiredFields_def)
  have sort: "sortEntries ?xs = [sample ''b'' ''Faro'' 30, sample ''c'' ''Braga'' 20, sample ''a'' ''Porto'' 10]"
    by (simp add: sortEntries_def compareFn_def sample_fields)
  show ?thesis
    using getEntries_result[of "emptyWorld\<lparr>rejects := [True]\<rparr>"]
      getEntries_result[of emptyWorld]
      getEntries_result[of "emptyWorld\<lparr>item := Some Malformed\<rparr>"]
      getEntries_result[of "emptyWorld\<lparr>item := Some (Encodes (JObj []))\<rparr>" "JObj []"]
      getEntries_result[of "holding [sample ''a'' ''Porto'' 10, ?bad]"
        "JArr [sample ''a'' ''Porto'' 10, ?bad]" "[sample ''a'' ''Porto'' 10, ?bad]"]
      getEntries_result[of "holding ?xs" "JArr ?xs" ?xs]
      bad
    by (simp add: emptyWorld_def holding_def rejecting_def sample_valid sample_stable sort)
qed

text \<open>
  C3. The validator returns a boolean for every value and never raises, and the boolean
  is true exactly when the value is a structured value with the six required fields of
  their primitive kinds and with every present optional field of its shape; an absent
  optional field puts no condition.
\<close>

theorem validator_decides_schema: "validateEntry v = Inr (meetsSchema v)"
proof (cases "isObject v")
  case False
  then have "\<not> meetsSchema v"
    by (cases v) (simp_all add: meetsSchema_def requiredString_def present_def)
  with False show ?thesis
    by (simp add: validateEntry_not_object)
next
  case True
  then obtain kvs where v: "v = JObj kvs"
    by (cases v) simp_all
  have str: "typeof x = ''string'' \<Longrightarrow> x \<noteq> JUndefined" for x
    by (cases x) simp_all
  have num: "typeof x = ''number'' \<Longrightarrow> x \<noteq> JUndefined" for x
    by (cases x) simp_all
  show ?thesis
    unfolding v validateEntry_object
    by (auto simp: meetsSchema_def structured_def requiredString_def requiredNumber_def
        present_def requiredFields_def dest: str num)
qed

text \<open>
  The validator at an entry that has every optional field, which it accepts, and at an
  entry without \<^verbatim>\<open>latitude\<close>, which it rejects.
\<close>

theorem validator_decides_schema_witness:
  "meetsSchema fullEntry \<and> validateEntry fullEntry = Inr True
   \<and> \<not> meetsSchema noLatitude \<and> validateEntry noLatitude = Inr False"
proof -
  have "meetsSchema fullEntry"
    by (simp add: meetsSchema_def fullEntry_def structured_def requiredString_def
        requiredNumber_def present_def)
  moreover have "\<not> meetsSchema noLatitude"
    by (simp add: meetsSchema_def noLatitude_def requiredNumber_def present_def)
  ultimately show ?thesis
    using validator_decides_schema[of fullEntry] validator_decides_schema[of noLatitude]
    by simp
qed

text \<open>
  C4, as amended. None of the eight operations raises: each returns a value, whatever
  its arguments are and whichever calls to the store reject, and an exception that
  leaves the body of an operation becomes its default. A rejected call gives the default
  of the operation in these cases: the first call of reading, counting, fetching,
  delete, update and clear; the second call (the write) of insert, delete and update; the
  third call (the re-read) of insert and update. It does not in the three others, where
  the read inside the operation turns the rejection into an empty sequence and the
  operation goes on. Insert of an accepted entry whose first read rejects writes the
  entry alone in place of the stored collection, and gives \<^verbatim>\<open>true\<close> when the re-read
  does not reject and the entry passes the validator as JSON holds it. Delete of a
  stored identifier whose re-read rejects gives \<^verbatim>\<open>true\<close>, and so does clear when its
  re-read rejects.
\<close>

theorem operations_never_raise:
  "(\<exists>b. fst (saveEntry now random36 entry w) = Inr b)
   \<and> (\<exists>xs. fst (getEntries w) = Inr xs)
   \<and> (\<exists>e. fst (getEntryById ident w) = Inr e)
   \<and> (\<exists>b. fst (removeEntry ident w) = Inr b)
   \<and> (\<exists>b. fst (updateEntry entry w) = Inr b)
   \<and> (\<exists>b. fst (clearAllEntries w) = Inr b)
   \<and> (\<exists>n. fst (getEntryCount w) = Inr n)
   \<and> fst (debugStorage w) = Inr ()
   \<and> (\<forall>e. fst (getEntries_try w) = Inl e \<longrightarrow> fst (getEntries w) = Inr [])
   \<and> (\<forall>e. fst (saveEntry_try now random36 entry w) = Inl e
         \<longrightarrow> fst (saveEntry now random36 entry w) = Inr False)
   \<and> (\<forall>e. fst (removeEntry_try ident w) = Inl e \<longrightarrow> fst (removeEntry ident w) = Inr False)
   \<and> (\<forall>e. fst (updateEntry_try entry w) = Inl e \<longrightarrow> fst (updateEntry entry w) = Inr False)
   \<and> (\<forall>e. fst (clearAllEntries_try w) = Inl e \<longrightarrow> fst (clearAllEntries w) = Inr False)
   \<and> (rejectsAt 0 w \<longrightarrow>
         fst (getEntries w) = Inr [] \<and> fst (getEntryCount w) = Inr 0
         \<and> fst (getEntryById ident w) = Inr JNull \<and> fst (removeEntry ident w) = Inr False
         \<and> fst (updateEntry entry w) = Inr False \<and> fst (clearAllEntries w) = Inr False)
   \<and> (rejectsAt 1 w \<longrightarrow>
         fst (saveEntry now random36 entry w) = Inr False
         \<and> fst (removeEntry ident w) = Inr False \<and> fst (updateEntry entry w) = Inr False)
   \<and> (rejectsAt 2 w \<longrightarrow>
         fst (saveEntry now random36 entry w) = Inr False
         \<and> fst (updateEntry entry w) = Inr False)
   \<and> (rejectsAt 0 w \<and> \<not> rejectsAt 1 w \<and> validateEntry entry = Inr True \<longrightarrow>
         snd (saveEntry now random36 entry w)
           = (entry, called GetItem (wrote (Encodes (JArr [entry])) (called GetItem w)))
         \<and> fst (saveEntry now random36 entry w)
           = Inr (\<not> rejectsAt 2 w \<and> validateEntry (asJSON entry) = Inr True))
   \<and> (\<not> rejectsAt 0 w \<and> \<not> rejectsAt 1 w \<and> rejectsAt 2 w \<and> truthy ident
        \<and> list_ex (sameId ident) (readable (item w))
        \<longrightarrow> fst (removeEntry ident w) = Inr True)
   \<and> (\<not> rejectsAt 0 w \<and> rejectsAt 1 w \<longrightarrow> fst (clearAllEntries w) = Inr True)"
proof -
  have total: "\<exists>x. fst (tryCatch d r) = Inr x" for d :: 'a and r :: "(exn + 'a) \<times> 's"
    by (simp add: tryCatch_fst split: sum.splits)
  have caught: "fst r = Inl e \<Longrightarrow> fst (tryCatch d r) = Inr d"
    for d :: 'a and r :: "(exn + 'a) \<times> 's" and e
    by (simp add: tryCatch_fst)
  have save: "fst (saveEntry now random36 entry w) = Inr False" if "rejectsAt 1 w"
  proof (cases "validateEntry entry = Inr True")
    case True
    with that show ?thesis
      by (simp add: saveEntry_eq Let_def rejecting_second)
  next
    case False
    then show ?thesis by (simp add: saveEntry_invalid)
  qed
  have update: "fst (updateEntry entry w) = Inr False"
    if "rejectsAt 0 w \<or> rejectsAt 1 w"
  proof (cases "validateEntry entry = Inr True")
    case True
    with that show ?thesis
      by (auto simp: updateEntry_eq Let_def entriesRead_rejecting rejectsAt_0 rejecting_second)
  next
    case False
    then show ?thesis by (simp add: updateEntry_invalid)
  qed
  have remove: "fst (removeEntry ident w) = Inr False"
    if "rejectsAt 0 w \<or> rejectsAt 1 w"
    using that
    by (auto simp: removeEntry_eq Let_def entriesRead_rejecting rejectsAt_0 rejecting_second)
  have read: "fst (getEntries w) = Inr []" "fst (getEntryCount w) = Inr 0"
    "fst (getEntryById ident w) = Inr JNull" "fst (clearAllEntries w) = Inr False"
    if "rejectsAt 0 w"
    using that
    by (simp_all add: getEntries_read getEntryCount_eq getEntryById_eq clearAllEntries_eq
        entriesRead_rejecting rejectsAt_0)
  have "\<exists>b. fst (saveEntry now random36 entry w) = Inr b"
    and "\<exists>xs. fst (getEntries w) = Inr xs"
    and "\<exists>e. fst (getEntryById ident w) = Inr e"
    and "\<exists>b. fst (removeEntry ident w) = Inr b"
    and "\<exists>b. fst (updateEntry entry w) = Inr b"
    and "\<exists>b. fst (clearAllEntries w) = Inr b"
    and "\<exists>n. fst (getEntryCount w) = Inr n"
    unfolding saveEntry_def getEntries_def getEntryById_def removeEntry_def updateEntry_def
      clearAllEntries_def getEntryCount_def
    by (rule total)+
  moreover have "fst (debugStorage w) = Inr ()"
    by (simp add: debugStorage_eq)
  moreover have "\<forall>e. fst (getEntries_try w) = Inl e \<longrightarrow> fst (getEntries w) = Inr []"
    and "\<forall>e. fst (saveEntry_try now random36 entry w) = Inl e
           \<longrightarrow> fst (saveEntry now random36 entry w) = Inr False"
    and "\<forall>e. fst (removeEntry_try ident w) = Inl e \<longrightarrow> fst (removeEntry ident w) = Inr False"
    and "\<forall>e. fst (updateEntry_try entry w) = Inl e \<longrightarrow> fst (updateEntry entry w) = Inr False"
    and "\<forall>e. fst (clearAllEntries_try w) = Inl e \<longrightarrow> fst (clearAllEntries w) = Inr False"
    unfolding saveEntry_def getEntries_def removeEntry_def updateEntry_def clearAllEntries_def
    by (simp_all add: caught)
  moreover have "rejectsAt 0 w \<longrightarrow>
         fst (getEntries w) = Inr [] \<and> fst (getEntryCount w) = Inr 0
         \<and> fst (getEntryById ident w) = Inr JNull \<and> fst (removeEntry ident w) = Inr False
         \<and> fst (updateEntry entry w) = Inr False \<and> fst (clearAllEntries w) = Inr False"
    using read remove update by simp
  moreover have "rejectsAt 1 w \<longrightarrow>
         fst (saveEntry now random36 entry w) = Inr False
         \<and> fst (removeEntry ident w) = Inr False \<and> fst (updateEntry entry w) = Inr False"
    using save remove update by simp
  moreover have "rejectsAt 2 w \<longrightarrow>
         fst (saveEntry now random36 entry w) = Inr False
         \<and> fst (updateEntry entry w) = Inr False"
    using third_rejects by simp
  moreover have "rejectsAt 0 w \<and> \<not> rejectsAt 1 w \<and> validateEntry entry = Inr True \<longrightarrow>
         snd (saveEntry now random36 entry w)
           = (entry, called GetItem (wrote (Encodes (JArr [entry])) (called GetItem w)))
         \<and> fst (saveEntry now random36 entry w)
           = Inr (\<not> rejectsAt 2 w \<and> validateEntry (asJSON entry) = Inr True)"
    using saveEntry_blind by blast
  moreover have "\<not> rejectsAt 0 w \<and> \<not> rejectsAt 1 w \<and> rejectsAt 2 w \<and> truthy ident
        \<and> list_ex (sameId ident) (readable (item w))
        \<longrightarrow> fst (removeEntry ident w) = Inr True"
    using removeEntry_unverified by blast
  moreover have "\<not> rejectsAt 0 w \<and> rejectsAt 1 w \<longrightarrow> fst (clearAllEntries w) = Inr True"
    using clearAllEntries_unverified by blast
  ultimately show ?thesis
    by blast
qed

text \<open>
  The theorem on a store that holds the entries \<open>a\<close> and \<open>b\<close>: with every call
  rejecting, each operation gives its default; with the first read rejecting, the
  insert of \<open>c\<close> leaves \<open>c\<close> as the only stored entry; with the re-read rejecting,
  the delete of \<open>a\<close> and the clear give \<^verbatim>\<open>true\<close>.
\<close>

theorem operations_never_raise_witness:
  "fst (getEntries_try (holding [sample ''a'' ''Porto'' 10, sample ''b'' ''Faro'' 20]
          \<lparr>rejects := [True, True, True]\<rparr>)) = Inl Rejected
   \<and> fst (getEntries (holding [sample ''a'' ''Porto'' 10, sample ''b'' ''Faro'' 20]
          \<lparr>rejects := [True, True, True]\<rparr>)) = Inr []
   \<and> fst (getEntryCount (holding [sample ''a'' ''Porto'' 10, sample ''b'' ''Faro'' 20]
          \<lparr>rejects := [True, True, True]\<rparr>)) = Inr 0
   \<and> fst (getEntryById (JStr ''a'') (holding [sample ''a'' ''Porto'' 10, sample ''b'' ''Faro'' 20]
          \<lparr>rejects := [True, True, True]\<rparr>)) = Inr JNull
   \<and> fst (clearAllEntries_try (holding [sample ''a'' ''Porto'' 10, sample ''b'' ''Faro'' 20]
          \<lparr>rejects := [True, True, True]\<rparr>)) = Inl Rejected
   \<and> fst (clearAllEntries (holding [sample ''a'' ''Porto'' 10, sample ''b'' ''Faro'' 20]
          \<lparr>rejects := [True, True, True]\<rparr>)) = Inr False
   \<and> fst (removeEntry (JStr ''a'') (holding [sample ''a'' ''Porto'' 10, sample ''b'' ''Faro'' 20]
          \<lparr>rejects := [True, True, True]\<rparr>)) = Inr False
   \<and> fst (saveEntry 0 ''0.7'' (sample ''c'' ''Braga'' 30)
          (holding [sample ''a'' ''Porto'' 10, sample ''b'' ''Faro'' 20]
          \<lparr>rejects := [True, True, True]\<rparr>)) = Inr False
   \<and> fst (updateEntry (sample ''a'' ''Gaia'' 10)
          (holding [sample ''a'' ''Porto'' 10, sample ''b'' ''Faro'' 20]
          \<lparr>rejects := [True, True, True]\<rparr>)) = Inr False
   \<and> fst (saveEntry_try 0 ''0.7'' noLatitude emptyWorld)
       = Inl (Error ''Invalid entry data structure'')
   \<and> fst (saveEntry 0 ''0.7'' noLatitude emptyWorld) = Inr False
   \<and> fst (updateEntry_try noLatitude emptyWorld) = Inl (Error ''Invalid entry data structure'')
   \<and> fst (updateEntry noLatitude emptyWorld) = Inr False
   \<and> fst (removeEntry_try (JStr []) emptyWorld) = Inl (Error ''Invalid entry ID'')
   \<and> fst (removeEntry (JStr []) emptyWorld) = Inr False
   \<and> saveEntry 0 ''0.7'' (sample ''c'' ''Braga'' 30)
        (holding [sample ''a'' ''Porto'' 10, sample ''b'' ''Faro'' 20]\<lparr>rejects := [True]\<rparr>)
       = (Inr True, sample ''c'' ''Braga'' 30,
          called GetItem (wrote (Encodes (JArr [sample ''c'' ''Braga'' 30]))
            (called GetItem (holding [sample ''a'' ''Porto'' 10, sample ''b'' ''Faro'' 20]
               \<lparr>rejects := [True]\<rparr>))))
   \<and> fst (removeEntry (JStr ''a'') (holding [sample ''a'' ''Porto'' 10, sample ''b'' ''Faro'' 20]
          \<lparr>rejects := [False, False, True]\<rparr>)) = Inr True
   \<and> fst (clearAllEntries (holding [sample ''a'' ''Porto'' 10, sample ''b'' ''Faro'' 20]
          \<lparr>rejects := [False, True]\<rparr>)) = Inr True"
proof -
  let ?h = "holding [sample ''a'' ''Porto'' 10, sample ''b'' ''Faro'' 20]"
  let ?all = "?h\<lparr>rejects := [True, True, True]\<rparr>"
  have at: "rejectsAt 0 ?all" "rejectsAt 1 ?all" "rejectsAt 2 ?all"
    "rejectsAt 0 (?h\<lparr>rejects := [True]\<rparr>)" "\<not> rejectsAt 1 (?h\<lparr>rejects := [True]\<rparr>)"
    "\<not> rejectsAt 2 (?h\<lparr>rejects := [True]\<rparr>)"
    "\<not> rejectsAt 0 (?h\<lparr>rejects := [False, False, True]\<rparr>)"
    "\<not> rejectsAt 1 (?h\<lparr>rejects := [False, False, True]\<rparr>)"
    "rejectsAt 2 (?h\<lparr>rejects := [False, False, True]\<rparr>)"
    "\<not> rejectsAt 0 (?h\<lparr>rejects := [False, True]\<rparr>)"
    "rejectsAt 1 (?h\<lparr>rejects := [False, True]\<rparr>)"
    by (simp_all add: rejectsAt_def)
  have raised: "fst (getEntries_try ?all) = Inl Rejected"
    "fst (clearAllEntries_try ?all) = Inl Rejected"
    by (simp_all add: getEntries_try_def clearAllEntries_try_def AsyncStorage_getItem_def
        AsyncStorage_removeItem_def rejecting_def)
  have "validateEntry noLatitude = Inr False"
    by (simp add: noLatitude_def validateEntry_object requiredFields_def)
  then have thrown: "fst (saveEntry_try 0 ''0.7'' noLatitude emptyWorld)
      = Inl (Error ''Invalid entry data structure'')"
    "fst (updateEntry_try noLatitude emptyWorld) = Inl (Error ''Invalid entry data structure'')"
    "fst (removeEntry_try (JStr []) emptyWorld) = Inl (Error ''Invalid entry ID'')"
    by (simp_all add: saveEntry_try_def updateEntry_try_def removeEntry_try_def)
  have found: "list_ex (sameId (JStr ''a'')) (readable (item (?h\<lparr>rejects := [False, False, True]\<rparr>)))"
    by (simp add: holding_def readable_written_stable sample_simps)
  note all = operations_never_raise[where w = ?all and now = 0 and ?random36.0 = "''0.7''"
      and entry = "sample ''c'' ''Braga'' 30" and ident = "JStr ''a''"]
  note upd = operations_never_raise[where w = ?all and entry = "sample ''a'' ''Gaia'' 10"]
  note bad = operations_never_raise[where w = emptyWorld and now = 0 and ?random36.0 = "''0.7''"
      and entry = noLatitude and ident = "JStr []"]
  note blind = operations_never_raise[where w = "?h\<lparr>rejects := [True]\<rparr>" and now = 0
      and ?random36.0 = "''0.7''" and entry = "sample ''c'' ''Braga'' 30"]
  note del = operations_never_raise[where w = "?h\<lparr>rejects := [False, False, True]\<rparr>"
      and ident = "JStr ''a''"]
  note clr = operations_never_raise[where w = "?h\<lparr>rejects := [False, True]\<rparr>"]
  have blind': "saveEntry 0 ''0.7'' (sample ''c'' ''Braga'' 30) (?h\<lparr>rejects := [True]\<rparr>)
       = (Inr True, sample ''c'' ''Braga'' 30,
          called GetItem (wrote (Encodes (JArr [sample ''c'' ''Braga'' 30]))
            (called GetItem (?h\<lparr>rejects := [True]\<rparr>))))"
    using blind at(4-6) by (simp add: prod_eq_iff sample_valid sample_stable)
  from all upd bad del clr at raised thrown found blind' show ?thesis
    by simp
qed

text \<open>
  C4 as stated fails when a read inside an operation rejects. The store holds the
  entries \<open>a\<close> and \<open>b\<close>. When the first call rejects, the insert of \<open>c\<close> gives
  \<^verbatim>\<open>true\<close>, not the default, and afterwards the store holds \<open>c\<close> alone. When the
  third call rejects, the delete of \<open>a\<close> gives \<^verbatim>\<open>true\<close>; when the second call
  rejects, clear gives \<^verbatim>\<open>true\<close>.
\<close>

theorem rejected_read_counterexample:
  "fst (AsyncStorage_getItem
          (holding [sample ''a'' ''Porto'' 10, sample ''b'' ''Faro'' 20]\<lparr>rejects := [True]\<rparr>))
     = Inl Rejected
   \<and> fst (saveEntry 0 ''0.7'' (sample ''c'' ''Braga'' 30)
          (holding [sample ''a'' ''Porto'' 10, sample ''b'' ''Faro'' 20]\<lparr>rejects := [True]\<rparr>))
     = Inr True
   \<and> readable (item (holding [sample ''a'' ''Porto'' 10, sample ''b'' ''Faro'' 20]\<lparr>rejects := [True]\<rparr>))
     = [sample ''b'' ''Faro'' 20, sample ''a'' ''Porto'' 10]
   \<and> readable (item (snd (snd (saveEntry 0 ''0.7'' (sample ''c'' ''Braga'' 30)
          (holding [sample ''a'' ''Porto'' 10, sample ''b'' ''Faro'' 20]\<lparr>rejects := [True]\<rparr>)))))
     = [sample ''c'' ''Braga'' 30]
   \<and> fst (removeEntry (JStr ''a'')
          (holding [sample ''a'' ''Porto'' 10, sample ''b'' ''Faro'' 20]
             \<lparr>rejects := [False, False, True]\<rparr>))
     = Inr True
   \<and> fst (clearAllEntries
          (holding [sample ''a'' ''Porto'' 10, sample ''b'' ''Faro'' 20]\<lparr>rejects := [False, True]\<rparr>))
     = Inr True"
proof -
  let ?h = "holding [sample ''a'' ''Porto'' 10, sample ''b'' ''Faro'' 20]"
  have r: "readable (Some (Encodes (JArr [sample ''a'' ''Porto'' 10, sample ''b'' ''Faro'' 20])))
      = [sample ''b'' ''Faro'' 20, sample ''a'' ''Porto'' 10]"
    "readable (Some (Encodes (JArr [sample ''b'' ''Faro'' 20]))) = [sample ''b'' ''Faro'' 20]"
    "readable (Some (Encodes (JArr [sample ''c'' ''Braga'' 30]))) = [sample ''c'' ''Braga'' 30]"
    by (simp_all add: readable_written_stable sample_simps)
  have "fst (AsyncStorage_getItem (?h\<lparr>rejects := [True]\<rparr>)) = Inl Rejected"
    by (simp add: AsyncStorage_getItem_def rejecting_def)
  moreover have "saveEntry 0 ''0.7'' (sample ''c'' ''Braga'' 30) (?h\<lparr>rejects := [True]\<rparr>)
      = (Inr True, sample ''c'' ''Braga'' 30,
         called GetItem (wrote (Encodes (JArr [sample ''c'' ''Braga'' 30]))
           (called GetItem (?h\<lparr>rejects := [True]\<rparr>))))"
    by (simp add: saveEntry_eq Let_def entriesRead_def rejecting_def called_fields wrote_fields
        r sample_simps)
  moreover have "fst (removeEntry (JStr ''a'') (?h\<lparr>rejects := [False, False, True]\<rparr>)) = Inr True"
    by (simp add: removeEntry_eq Let_def entriesRead_def rejecting_def called_fields wrote_fields
        holding_def r sample_simps)
  moreover have "fst (clearAllEntries (?h\<lparr>rejects := [False, True]\<rparr>)) = Inr True"
    by (simp add: clearAllEntries_eq entriesRead_def rejecting_def called_fields)
  ultimately show ?thesis
    by (simp add: called_fields wrote_fields r holding_def)
qed

text \<open>
  C5, as amended. An insert reports success only for an entry that the validator
  accepts. After a successful insert, fetching by the identifier that the entry has
  after the insert (its own, or the generated one), with a read that does not reject,
  returns a stored entry with that identifier. When the identifier generated on a
  collision is not already the identifier
  of a stored entry, the entry returned is the entry inserted as it is stored: the
  caller's entry after the insert, as JSON holds it. For an entry made of JSON data only
  (finite numbers and no \<^verbatim>\<open>undefined\<close> inside) that is the entry itself, field for
  field.
\<close>

theorem insert_then_fetch:
  assumes "saveEntry now random36 entry w = (Inr True, entry', w')"
    and "\<not> rejecting w'"
  shows "validateEntry entry = Inr True
    \<and> (\<exists>e. fst (getEntryById (idOf entry') w') = Inr e
           \<and> e \<in> set (readable (item w')) \<and> idOf e = idOf entry')
    \<and> ((list_ex (sameId (idOf entry)) (entriesRead w)
          \<longrightarrow> JStr (newId now random36) \<notin> set (storedIds w))
        \<longrightarrow> fst (getEntryById (idOf entry') w') = Inr (asJSON entry')
          \<and> (asJSON entry = entry \<longrightarrow> fst (getEntryById (idOf entry') w') = Inr entry'))"
proof (intro conjI impI)
  note s = saveEntry_success[OF assms(1)]
  have valid': "validateEntry entry' = Inr True"
    using assms(1) by (rule saveEntry_success_ids)
  have R: "entriesRead w' = readable (item w')"
    using assms(2) by (simp add: entriesRead_def)
  have stored: "asJSON entry' \<in> set (readable (item w'))"
    by (simp add: s(7) set_sortEntries)
  have same: "sameId (idOf entry') (asJSON entry')"
    using stored valid' by (simp add: valid_sameId readable_valid valid_idOf_asJSON)
  show "validateEntry entry = Inr True"
    by (rule s(1))
  have "list_ex (sameId (idOf entry')) (readable (item w'))"
    using stored same by (auto simp: list_ex_iff)
  from find_list_ex[OF this]
  obtain e where e: "find (sameId (idOf entry')) (readable (item w')) = Some e"
    "e \<in> set (readable (item w'))" "sameId (idOf entry') e"
    by blast
  from e(2,3) have "idOf e = idOf entry'"
    by (simp add: valid_sameId readable_valid)
  moreover have "fst (getEntryById (idOf entry') w') = Inr e"
    by (simp add: getEntryById_eq R e(1))
  moreover note e(2)
  ultimately show "\<exists>e. fst (getEntryById (idOf entry') w') = Inr e
      \<and> e \<in> set (readable (item w')) \<and> idOf e = idOf entry'"
    by blast
  assume "list_ex (sameId (idOf entry)) (entriesRead w)
      \<longrightarrow> JStr (newId now random36) \<notin> set (storedIds w)"
  with assms(1) have fresh: "idOf entry' \<notin> set (map idOf (entriesRead w))"
    by (rule saveEntry_success_fresh)
  have "y = asJSON entry'"
    if "y \<in> set (readable (item w'))" and "sameId (idOf entry') y" for y
  proof (rule ccontr)
    assume "y \<noteq> asJSON entry'"
    from that(1) have "y \<in> asJSON ` set (entriesRead w) \<or> y = asJSON entry'"
      unfolding s(7) set_sortEntries by auto
    with \<open>y \<noteq> asJSON entry'\<close> obtain x where x: "x \<in> set (entriesRead w)" "y = asJSON x"
      by blast
    from that have "idOf y = idOf entry'"
      by (simp add: valid_sameId readable_valid)
    with x have "idOf x = idOf entry'"
      by (simp add: valid_idOf_asJSON entriesRead_valid)
    with x(1) have "idOf entry' \<in> idOf ` set (entriesRead w)"
      by (metis imageI)
    with fresh show False
      by simp
  qed
  then have "\<forall>y\<in>set (readable (item w')). sameId (idOf entry') y \<longrightarrow> y = asJSON entry'"
    by blast
  with stored same
  have "find (sameId (idOf entry')) (readable (item w')) = Some (asJSON entry')"
    by (rule find_only)
  then show fetch: "fst (getEntryById (idOf entry') w') = Inr (asJSON entry')"
    by (simp add: getEntryById_eq R)
  assume "asJSON entry = entry"
  then have "asJSON entry' = entry'"
    using s(2) by (simp add: asJSON_setProp_stable)
  with fetch show "fst (getEntryById (idOf entry') w') = Inr entry'"
    by simp
qed

text \<open>
  The theorem on a store that holds an entry with identifier \<open>a\<close>: a second entry
  with that identifier is inserted, the generated identifier is not stored, and the
  entry is fetched back under the generated identifier; and an entry whose
  \<^verbatim>\<open>weather.temperature\<close> is NaN is inserted into the empty store and is fetched back
  with \<^verbatim>\<open>null\<close> in that place, as it is stored.
\<close>

theorem insert_then_fetch_witness:
  "fst (saveEntry 1700000000000 ''0.4fzyo82mvyr'' (sample ''a'' ''Braga'' 30)
          (holding [sample ''a'' ''Porto'' 10])) = Inr True
   \<and> list_ex (sameId (idOf (sample ''a'' ''Braga'' 30)))
          (entriesRead (holding [sample ''a'' ''Porto'' 10]))
   \<and> JStr (newId 1700000000000 ''0.4fzyo82mvyr'')
          \<notin> set (storedIds (holding [sample ''a'' ''Porto'' 10]))
   \<and> fst (getEntryById (JStr ''entry_loyw3v28_4fzyo82mv'')
          (snd (snd (saveEntry 1700000000000 ''0.4fzyo82mvyr'' (sample ''a'' ''Braga'' 30)
             (holding [sample ''a'' ''Porto'' 10])))))
       = Inr (sample ''entry_loyw3v28_4fzyo82mv'' ''Braga'' 30)
   \<and> fst (saveEntry 0 ''0.7''
          (setProp (sample ''c'' ''Braga'' 30) ''weather'' (JObj [(''temperature'', JNum NaN)]))
          emptyWorld) = Inr True
   \<and> fst (getEntryById (JStr ''c'')
          (snd (snd (saveEntry 0 ''0.7''
             (setProp (sample ''c'' ''Braga'' 30) ''weather'' (JObj [(''temperature'', JNum NaN)]))
             emptyWorld))))
       = Inr (setProp (sample ''c'' ''Braga'' 30) ''weather'' (JObj [(''temperature'', JNull)]))"
proof -
  let ?w = "holding [sample ''a'' ''Porto'' 10]"
  let ?w' = "called GetItem (wrote (Encodes (JArr [sample ''a'' ''Porto'' 10,
      sample ''entry_loyw3v28_4fzyo82mv'' ''Braga'' 30])) (called GetItem ?w))"
  let ?c = "setProp (sample ''c'' ''Braga'' 30) ''weather'' (JObj [(''temperature'', JNum NaN)])"
  let ?v' = "called GetItem (wrote (Encodes (JArr [?c])) (called GetItem emptyWorld))"
  have r: "entriesRead ?w = [sample ''a'' ''Porto'' 10]"
    by (simp add: entriesRead_holding sample_simps)
  have ids0: "storedIds ?w = [JStr ''a'']"
    by (simp add: storedIds_def holding_def readable_written_stable sample_simps)
  have run: "saveEntry 1700000000000 ''0.4fzyo82mvyr'' (sample ''a'' ''Braga'' 30) ?w
      = (Inr True, sample ''entry_loyw3v28_4fzyo82mv'' ''Braga'' 30, ?w')"
    by (simp add: saveEntry_eq Let_def newId_sample entriesRead_stored world_simps sample_simps)
  have c: "validateEntry ?c = Inr True" "idOf ?c = JStr ''c''"
    "asJSON ?c = setProp (sample ''c'' ''Braga'' 30) ''weather'' (JObj [(''temperature'', JNull)])"
    "validateEntry (asJSON ?c) = Inr True"
    by (simp_all add: sample_def validateEntry_object requiredFields_def idOf_def)
  have readc: "readable (Some (Encodes (JArr [?c]))) = [asJSON ?c]"
    unfolding readable_written using c(4) by (simp add: sortEntries_def)
  have sameIdc: "sameId (JStr ''c'') (asJSON ?c)"
    using c(4) by (simp add: valid_sameId valid_idOf_asJSON c(1,2))
  have e: "entriesRead emptyWorld = []"
    by (simp add: entriesRead_def emptyWorld_def rejecting_def)
  have runc: "saveEntry 0 ''0.7'' ?c emptyWorld = (Inr True, ?c, ?v')"
    using sameIdc
    by (simp add: saveEntry_eq c(1,2) Let_def entriesRead_def readc world_simps)
  have nr: "\<not> rejecting ?w'" "\<not> rejecting ?v'"
    by (simp_all add: world_simps)
  have fresh: "JStr (newId 1700000000000 ''0.4fzyo82mvyr'') \<notin> set (storedIds ?w)"
    by (simp add: ids0 newId_sample)
  have coll: "list_ex (sameId (idOf (sample ''a'' ''Braga'' 30))) (entriesRead ?w)"
    by (simp add: r sample_simps)
  from insert_then_fetch[OF run nr(1)] fresh
  have f1: "fst (getEntryById (JStr ''entry_loyw3v28_4fzyo82mv'') ?w')
      = Inr (sample ''entry_loyw3v28_4fzyo82mv'' ''Braga'' 30)"
    by (simp add: sample_fields sample_stable)
  from insert_then_fetch[OF runc nr(2)] e
  have f2: "fst (getEntryById (JStr ''c'') ?v')
      = Inr (setProp (sample ''c'' ''Braga'' 30) ''weather'' (JObj [(''temperature'', JNull)]))"
    by (simp add: c(2,3))
  show ?thesis
    unfolding run runc using f1 f2 fresh coll by simp
qed

text \<open>
  C5 as stated fails when the identifier generated on a collision is already stored.
  The store holds the entries \<open>a\<close> and \<open>entry_loyw3v28_4fzyo82mv\<close>. An entry with
  identifier \<open>a\<close>, older than both, is inserted when \<^verbatim>\<open>Date.now()\<close> is
  1700000000000 and \<^verbatim>\<open>Math.random().toString(36)\<close> is \<^verbatim>\<open>0.4fzyo82mvyr\<close>. The
  insert reports success and gives the entry the identifier
  \<open>entry_loyw3v28_4fzyo82mv\<close>; fetching by that identifier returns the entry stored
  before, with another address and another time, not the entry inserted.
\<close>

theorem fetch_after_insert_counterexample:
  "validateEntry (sample ''a'' ''Braga'' 5) = Inr True
   \<and> fst (saveEntry 1700000000000 ''0.4fzyo82mvyr'' (sample ''a'' ''Braga'' 5)
          (holding [sample ''a'' ''Porto'' 10, sample ''entry_loyw3v28_4fzyo82mv'' ''Faro'' 20]))
       = Inr True
   \<and> fst (snd (saveEntry 1700000000000 ''0.4fzyo82mvyr'' (sample ''a'' ''Braga'' 5)
          (holding [sample ''a'' ''Porto'' 10, sample ''entry_loyw3v28_4fzyo82mv'' ''Faro'' 20])))
       = sample ''entry_loyw3v28_4fzyo82mv'' ''Braga'' 5
   \<and> readable (item (snd (snd (saveEntry 1700000000000 ''0.4fzyo82mvyr'' (sample ''a'' ''Braga'' 5)
          (holding [sample ''a'' ''Porto'' 10, sample ''entry_loyw3v28_4fzyo82mv'' ''Faro'' 20])))))
       = [sample ''entry_loyw3v28_4fzyo82mv'' ''Faro'' 20, sample ''a'' ''Porto'' 10,
          sample ''entry_loyw3v28_4fzyo82mv'' ''Braga'' 5]
   \<and> fst (getEntryById (JStr ''entry_loyw3v28_4fzyo82mv'')
          (snd (snd (saveEntry 1700000000000 ''0.4fzyo82mvyr'' (sample ''a'' ''Braga'' 5)
             (holding [sample ''a'' ''Porto'' 10, sample ''entry_loyw3v28_4fzyo82mv'' ''Faro'' 20])))))
       = Inr (sample ''entry_loyw3v28_4fzyo82mv'' ''Faro'' 20)
   \<and> sample ''entry_loyw3v28_4fzyo82mv'' ''Faro'' 20 \<noteq> sample ''entry_loyw3v28_4fzyo82mv'' ''Braga'' 5
   \<and> propOf (sample ''entry_loyw3v28_4fzyo82mv'' ''Faro'' 20) ''address'' = JStr ''Faro''
   \<and> propOf (sample ''entry_loyw3v28_4fzyo82mv'' ''Braga'' 5) ''address'' = JStr ''Braga''"
proof -
  let ?w = "holding [sample ''a'' ''Porto'' 10, sample ''entry_loyw3v28_4fzyo82mv'' ''Faro'' 20]"
  let ?L = "[sample ''entry_loyw3v28_4fzyo82mv'' ''Faro'' 20, sample ''a'' ''Porto'' 10,
      sample ''entry_loyw3v28_4fzyo82mv'' ''Braga'' 5]"
  let ?w' = "called GetItem (wrote (Encodes (JArr ?L)) (called GetItem ?w))"
  have r: "entriesRead ?w = [sample ''entry_loyw3v28_4fzyo82mv'' ''Faro'' 20, sample ''a'' ''Porto'' 10]"
    by (simp add: entriesRead_holding sample_simps)
  have r': "readable (Some (Encodes (JArr ?L))) = ?L"
    by (simp add: readable_written_stable sample_simps)
  have run: "saveEntry 1700000000000 ''0.4fzyo82mvyr'' (sample ''a'' ''Braga'' 5) ?w =
    (Inr True, sample ''entry_loyw3v28_4fzyo82mv'' ''Braga'' 5, ?w')"
    by (simp add: saveEntry_eq r Let_def newId_sample entriesRead_stored world_simps sample_simps)
  have read: "entriesRead ?w' = ?L"
    by (simp add: entriesRead_def world_simps r')
  have fetch: "fst (getEntryById (JStr ''entry_loyw3v28_4fzyo82mv'') ?w')
      = Inr (sample ''entry_loyw3v28_4fzyo82mv'' ''Faro'' 20)"
    by (simp add: getEntryById_eq read sample_simps)
  have differ: "sample ''entry_loyw3v28_4fzyo82mv'' ''Faro'' 20
      \<noteq> sample ''entry_loyw3v28_4fzyo82mv'' ''Braga'' 5"
    by (simp add: sample_def)
  show ?thesis
    unfolding run using fetch differ by (simp add: sample_valid sample_fields world_simps r')
qed

text \<open>
  C6, as amended. When no stored entry has the identifier, delete gives \<^verbatim>\<open>false\<close>,
  the store is not written (the world afterwards is as before, or as before with one
  read in the log) and the stored collection is the same, so the count is unchanged.
  When delete gives \<^verbatim>\<open>true\<close>, an entry with the identifier was read, the calls were a
  read, a write and the re-read, the re-read returned no entry with the identifier, no
  stored entry has it any more, and fetching by it gives \<^verbatim>\<open>null\<close>; and when moreover
  the calls of the store succeed, the count afterwards is the count before less the
  number of stored entries with the identifier, all of which are removed: one less when
  the stored identifiers are pairwise distinct. In a store whose calls succeed, deleting
  a stored identifier other than the empty string does give \<^verbatim>\<open>true\<close>.
\<close>

theorem delete_result:
  "(\<not> list_ex (sameId ident) (readable (item w)) \<longrightarrow>
       fst (removeEntry ident w) = Inr False
       \<and> (snd (removeEntry ident w) = w \<or> snd (removeEntry ident w) = called GetItem w)
       \<and> readable (item (snd (removeEntry ident w))) = readable (item w)
       \<and> (rejects w = [] \<longrightarrow>
            fst (getEntryCount (snd (removeEntry ident w))) = fst (getEntryCount w)))
   \<and> (fst (removeEntry ident w) = Inr True \<longrightarrow>
       list_ex (sameId ident) (readable (item w))
       \<and> (\<exists>t. snd (removeEntry ident w) = called GetItem (wrote t (called GetItem w))
              \<and> \<not> list_ex (sameId ident) (entriesRead (wrote t (called GetItem w))))
       \<and> \<not> list_ex (sameId ident) (readable (item (snd (removeEntry ident w))))
       \<and> fst (getEntryById ident (snd (removeEntry ident w))) = Inr JNull
       \<and> (rejects w = [] \<longrightarrow>
            (\<exists>n. fst (getEntryCount (snd (removeEntry ident w))) = Inr n
                 \<and> fst (getEntryCount w)
                     = Inr (n + length (filter (sameId ident) (readable (item w))))))
       \<and> (rejects w = [] \<and> distinct (storedIds w) \<longrightarrow>
            (\<exists>n. fst (getEntryCount w) = Inr (Suc n)
                 \<and> fst (getEntryCount (snd (removeEntry ident w))) = Inr n)))
   \<and> (rejects w = [] \<and> truthy ident \<and> list_ex (sameId ident) (readable (item w))
        \<longrightarrow> fst (removeEntry ident w) = Inr True)"
proof (intro conjI impI)
  assume a: "\<not> list_ex (sameId ident) (readable (item w))"
  show "fst (removeEntry ident w) = Inr False"
    and "snd (removeEntry ident w) = w \<or> snd (removeEntry ident w) = called GetItem w"
    and same: "readable (item (snd (removeEntry ident w))) = readable (item w)"
    by (simp_all add: removeEntry_not_found[OF a] called_fields)
  show "fst (getEntryCount (snd (removeEntry ident w))) = fst (getEntryCount w)"
    if "rejects w = []"
    using that
    by (simp add: removeEntry_not_found[OF a] getEntryCount_eq entriesRead_def rejecting_def
        called_fields)
next
  assume s: "fst (removeEntry ident w) = Inr True"
  note r = removeEntry_success[OF s]
  let ?t = "Encodes (JArr (filter (\<lambda>e. \<not> sameId ident e) (entriesRead w)))"
  show "list_ex (sameId ident) (readable (item w))"
    using r(2) entriesRead_mono[of "sameId ident" w] by blast
  show "\<exists>t. snd (removeEntry ident w) = called GetItem (wrote t (called GetItem w))
      \<and> \<not> list_ex (sameId ident) (entriesRead (wrote t (called GetItem w)))"
    using r(4,5) by blast
  have gone: "\<not> list_ex (sameId ident) (readable (Some ?t))"
    by (intro absent_after_filter) (simp add: entriesRead_valid)
  then show "\<not> list_ex (sameId ident) (readable (item (snd (removeEntry ident w))))"
    by (simp add: r(4) called_fields wrote_fields)
  then have "\<not> list_ex (sameId ident) (entriesRead (snd (removeEntry ident w)))"
    by (rule entriesRead_mono)
  then show "fst (getEntryById ident (snd (removeEntry ident w))) = Inr JNull"
    by (simp add: getEntryById_eq find_None_iff_list_ex[THEN iffD2])
  show "\<exists>n. fst (getEntryCount (snd (removeEntry ident w))) = Inr n
      \<and> fst (getEntryCount w) = Inr (n + length (filter (sameId ident) (readable (item w))))"
    if "rejects w = []"
    using removeEntry_count_general[OF s that] by (simp add: getEntryCount_eq)
  show "\<exists>n. fst (getEntryCount w) = Inr (Suc n)
      \<and> fst (getEntryCount (snd (removeEntry ident w))) = Inr n"
    if "rejects w = [] \<and> distinct (storedIds w)"
    using removeEntry_count[OF s] that by (simp add: getEntryCount_eq)
next
  assume "rejects w = [] \<and> truthy ident \<and> list_ex (sameId ident) (readable (item w))"
  then show "fst (removeEntry ident w) = Inr True"
    by (simp add: removeEntry_works)
qed

text \<open>
  The theorem on a store that holds the entries \<open>a\<close> and \<open>b\<close>: deleting \<open>zz\<close>
  fails and only reads, deleting \<open>a\<close> succeeds, after which \<open>a\<close> is not found and
  the count has gone from two to one. On a store that holds two entries \<open>d\<close> and the
  entry \<open>b\<close>, deleting \<open>d\<close> succeeds and the count goes from three to one.
\<close>

theorem delete_result_witness:
  "fst (removeEntry (JStr ''zz'') (holding [sample ''a'' ''Porto'' 10, sample ''b'' ''Faro'' 20]))
     = Inr False
   \<and> snd (removeEntry (JStr ''zz'') (holding [sample ''a'' ''Porto'' 10, sample ''b'' ''Faro'' 20]))
     = called GetItem (holding [sample ''a'' ''Porto'' 10, sample ''b'' ''Faro'' 20])
   \<and> fst (removeEntry (JStr ''a'') (holding [sample ''a'' ''Porto'' 10, sample ''b'' ''Faro'' 20]))
     = Inr True
   \<and> fst (getEntryById (JStr ''a'')
        (snd (removeEntry (JStr ''a'') (holding [sample ''a'' ''Porto'' 10, sample ''b'' ''Faro'' 20]))))
     = Inr JNull
   \<and> fst (getEntryCount (holding [sample ''a'' ''Porto'' 10, sample ''b'' ''Faro'' 20])) = Inr 2
   \<and> fst (getEntryCount
        (snd (removeEntry (JStr ''a'') (holding [sample ''a'' ''Porto'' 10, sample ''b'' ''Faro'' 20]))))
     = Inr 1
   \<and> fst (removeEntry (JStr ''d'')
        (holding [sample ''d'' ''Porto'' 10, sample ''b'' ''Faro'' 20, sample ''d'' ''Braga'' 30]))
     = Inr True
   \<and> fst (getEntryCount
        (holding [sample ''d'' ''Porto'' 10, sample ''b'' ''Faro'' 20, sample ''d'' ''Braga'' 30]))
     = Inr 3
   \<and> fst (getEntryCount (snd (removeEntry (JStr ''d'')
        (holding [sample ''d'' ''Porto'' 10, sample ''b'' ''Faro'' 20, sample ''d'' ''Braga'' 30]))))
     = Inr 1"
proof -
  let ?w = "holding [sample ''a'' ''Porto'' 10, sample ''b'' ''Faro'' 20]"
  let ?v = "holding [sample ''d'' ''Porto'' 10, sample ''b'' ''Faro'' 20, sample ''d'' ''Braga'' 30]"
  have w: "rejects ?w = []" "rejects ?v = []"
    by (simp_all add: holding_def)
  have r: "readable (item ?w) = [sample ''b'' ''Faro'' 20, sample ''a'' ''Porto'' 10]"
    by (simp add: holding_def readable_written_stable sample_simps)
  have rv: "readable (item ?v)
      = [sample ''d'' ''Braga'' 30, sample ''b'' ''Faro'' 20, sample ''d'' ''Porto'' 10]"
    by (simp add: holding_def readable_written_stable sample_simps)
  have ids: "distinct (storedIds ?w)"
    by (simp add: storedIds_def r sample_fields)
  have count: "fst (getEntryCount ?w) = Inr 2"
    by (simp add: getEntryCount_eq entriesRead_working[OF w(1)] r)
  have countv: "fst (getEntryCount ?v) = Inr 3"
    by (simp add: getEntryCount_eq entriesRead_working[OF w(2)] rv)
  have zz: "\<not> list_ex (sameId (JStr ''zz'')) (readable (item ?w))"
    and a: "list_ex (sameId (JStr ''a'')) (readable (item ?w))"
    by (simp_all add: r sameId_sample)
  have d: "list_ex (sameId (JStr ''d'')) (readable (item ?v))"
    "length (filter (sameId (JStr ''d'')) (readable (item ?v))) = 2"
    by (simp_all add: rv sameId_sample)
  have notfound: "removeEntry (JStr ''zz'') ?w = (Inr False, called GetItem ?w)"
    using zz by (simp add: removeEntry_not_found)
  from delete_result[of "JStr ''a''" ?w] a w(1)
  have ok: "fst (removeEntry (JStr ''a'') ?w) = Inr True"
    by simp
  with delete_result[of "JStr ''a''" ?w] w(1) ids count
  have "fst (getEntryById (JStr ''a'') (snd (removeEntry (JStr ''a'') ?w))) = Inr JNull"
    and "fst (getEntryCount (snd (removeEntry (JStr ''a'') ?w))) = Inr 1"
    by auto
  moreover from delete_result[of "JStr ''d''" ?v] d(1) w(2)
  have okv: "fst (removeEntry (JStr ''d'') ?v) = Inr True"
    by simp
  moreover from delete_result[of "JStr ''d''" ?v] okv w(2) countv d(2)
  have "fst (getEntryCount (snd (removeEntry (JStr ''d'') ?v))) = Inr 1"
    by auto
  ultimately show ?thesis
    using delete_result[of "JStr ''zz''" ?w] zz notfound ok count countv
    by simp
qed

text \<open>
  C6 as stated fails when two stored entries share the identifier. The store holds the
  entries \<open>a\<close> and \<open>entry_loyw3v28_4fzyo82mv\<close>; the insert of an entry with
  identifier \<open>a\<close> when \<^verbatim>\<open>Date.now()\<close> is 1700000000000 and
  \<^verbatim>\<open>Math.random().toString(36)\<close> is \<^verbatim>\<open>0.4fzyo82mvyr\<close> reports success and leaves
  two stored entries with the identifier \<open>entry_loyw3v28_4fzyo82mv\<close>. Deleting that
  identifier then reports success, and the count goes from three to one.
\<close>

theorem delete_count_counterexample:
  "saveEntry 1700000000000 ''0.4fzyo82mvyr'' (sample ''a'' ''Braga'' 30)
      (holding [sample ''a'' ''Porto'' 10, sample ''entry_loyw3v28_4fzyo82mv'' ''Faro'' 20])
     = (Inr True, sample ''entry_loyw3v28_4fzyo82mv'' ''Braga'' 30,
        called GetItem (wrote (Encodes (JArr [sample ''entry_loyw3v28_4fzyo82mv'' ''Faro'' 20,
            sample ''a'' ''Porto'' 10, sample ''entry_loyw3v28_4fzyo82mv'' ''Braga'' 30]))
          (called GetItem
            (holding [sample ''a'' ''Porto'' 10, sample ''entry_loyw3v28_4fzyo82mv'' ''Faro'' 20]))))
   \<and> fst (getEntryCount
        (called GetItem (wrote (Encodes (JArr [sample ''entry_loyw3v28_4fzyo82mv'' ''Faro'' 20,
            sample ''a'' ''Porto'' 10, sample ''entry_loyw3v28_4fzyo82mv'' ''Braga'' 30]))
          (called GetItem
            (holding [sample ''a'' ''Porto'' 10, sample ''entry_loyw3v28_4fzyo82mv'' ''Faro'' 20])))))
     = Inr 3
   \<and> fst (removeEntry (JStr ''entry_loyw3v28_4fzyo82mv'')
        (called GetItem (wrote (Encodes (JArr [sample ''entry_loyw3v28_4fzyo82mv'' ''Faro'' 20,
            sample ''a'' ''Porto'' 10, sample ''entry_loyw3v28_4fzyo82mv'' ''Braga'' 30]))
          (called GetItem
            (holding [sample ''a'' ''Porto'' 10, sample ''entry_loyw3v28_4fzyo82mv'' ''Faro'' 20])))))
     = Inr True
   \<and> fst (getEntryCount (snd (removeEntry (JStr ''entry_loyw3v28_4fzyo82mv'')
        (called GetItem (wrote (Encodes (JArr [sample ''entry_loyw3v28_4fzyo82mv'' ''Faro'' 20,
            sample ''a'' ''Porto'' 10, sample ''entry_loyw3v28_4fzyo82mv'' ''Braga'' 30]))
          (called GetItem
            (holding [sample ''a'' ''Porto'' 10, sample ''entry_loyw3v28_4fzyo82mv'' ''Faro'' 20])))))))
     = Inr 1"
proof -
  let ?w = "holding [sample ''a'' ''Porto'' 10, sample ''entry_loyw3v28_4fzyo82mv'' ''Faro'' 20]"
  let ?L = "[sample ''entry_loyw3v28_4fzyo82mv'' ''Faro'' 20, sample ''a'' ''Porto'' 10,
      sample ''entry_loyw3v28_4fzyo82mv'' ''Braga'' 30]"
  let ?w' = "called GetItem (wrote (Encodes (JArr ?L)) (called GetItem ?w))"
  have r: "entriesRead ?w = [sample ''entry_loyw3v28_4fzyo82mv'' ''Faro'' 20, sample ''a'' ''Porto'' 10]"
    by (simp add: entriesRead_holding sample_simps)
  have run: "saveEntry 1700000000000 ''0.4fzyo82mvyr'' (sample ''a'' ''Braga'' 30) ?w =
    (Inr True, sample ''entry_loyw3v28_4fzyo82mv'' ''Braga'' 30, ?w')"
    by (simp add: saveEntry_eq r Let_def newId_sample entriesRead_stored world_simps sample_simps)
  have w': "rejects ?w' = []"
    by (simp add: world_simps)
  have r': "readable (item ?w') = [sample ''entry_loyw3v28_4fzyo82mv'' ''Braga'' 30,
      sample ''entry_loyw3v28_4fzyo82mv'' ''Faro'' 20, sample ''a'' ''Porto'' 10]"
    by (simp add: world_simps readable_written_stable sample_simps)
  have count: "fst (getEntryCount ?w') = Inr 3"
    by (simp add: getEntryCount_eq entriesRead_working[OF w'] r')
  have ok: "fst (removeEntry (JStr ''entry_loyw3v28_4fzyo82mv'') ?w') = Inr True"
    using w' by (intro removeEntry_works) (simp_all add: r' sameId_sample)
  have k: "length (filter (sameId (JStr ''entry_loyw3v28_4fzyo82mv'')) (readable (item ?w'))) = 2"
    by (simp add: r' sameId_sample)
  from removeEntry_count_general[OF ok w'] count
  have "fst (getEntryCount (snd (removeEntry (JStr ''entry_loyw3v28_4fzyo82mv'') ?w'))) = Inr 1"
    unfolding k by (simp add: getEntryCount_eq entriesRead_working[OF w'])
  with run count ok show ?thesis
    by simp
qed



text \<open>
  C8 fails on the code. The validator takes NaN and the infinities for numbers, and
  \<^verbatim>\<open>JSON.stringify\<close> writes them as \<^verbatim>\<open>null\<close>. So for an entry that the validator
  accepts and whose \<^verbatim>\<open>latitude\<close>, \<^verbatim>\<open>longitude\<close> or \<^verbatim>\<open>createdAt\<close> is not finite,
  in a store whose calls succeed: insert writes the collection with the entry added and
  gives \<^verbatim>\<open>false\<close>, update of a stored identifier writes the collection with the
  entry put in and gives \<^verbatim>\<open>false\<close>, and in both cases the stored collection then
  holds an entry that fails the validator and is read as empty.
\<close>

theorem non_finite_number_is_persisted:
  assumes "validateEntry entry = Inr True"
    and "name = ''latitude'' \<or> name = ''longitude'' \<or> name = ''createdAt''"
    and "propOf entry name = JNum n" and "\<not> isFinite n"
    and "rejects w = []"
  shows "fst (saveEntry now random36 entry w) = Inr False
    \<and> (\<exists>entry1. item (snd (snd (saveEntry now random36 entry w)))
          = Some (Encodes (JArr (readable (item w) @ [entry1])))
        \<and> validateEntry (asJSON entry1) = Inr False)
    \<and> \<not> persistedValid (snd (snd (saveEntry now random36 entry w)))
    \<and> readable (item (snd (snd (saveEntry now random36 entry w)))) = []
    \<and> (list_ex (sameId (idOf entry)) (readable (item w)) \<longrightarrow>
         fst (updateEntry entry w) = Inr False
         \<and> \<not> persistedValid (snd (updateEntry entry w))
         \<and> readable (item (snd (updateEntry entry w))) = [])"
proof -
  let ?R = "readable (item w)"
  have R: "entriesRead w = ?R"
    using assms(5) by (rule entriesRead_working)
  have nr: "\<not> rejecting (called GetItem w)" "\<not> rejecting w"
    using assms(5) by (simp_all add: rejecting_def called_fields)
  have name: "name \<noteq> ''id''"
    using assms(2) by auto
  define entry1 where "entry1 = (if list_ex (sameId (idOf entry)) ?R
    then setProp entry ''id'' (JStr (newId now random36)) else entry)"
  have "validateEntry entry1 = Inr True" "propOf entry1 name = JNum n"
    using assms(1,3) name
    by (simp_all add: entry1_def validateEntry_setProp propOf_setProp valid_isObject)
  then have bad1: "validateEntry (asJSON entry1) = Inr False"
    using assms(2,4) by (intro asJSON_required_number[of entry1 name n])
  let ?t = "Encodes (JArr (?R @ [entry1]))"
  have read1: "readable (Some ?t) = []"
    unfolding readable_written using bad1 by simp
  have save: "saveEntry now random36 entry w
      = (Inr False, entry1, called GetItem (wrote ?t (called GetItem w)))"
    using nr by (simp add: saveEntry_eq[OF assms(1)] R Let_def entry1_def[symmetric]
        entriesRead_def wrote_fields read1)
  have s1: "fst (saveEntry now random36 entry w) = Inr False"
    and s2: "\<exists>entry1. item (snd (snd (saveEntry now random36 entry w)))
          = Some (Encodes (JArr (?R @ [entry1]))) \<and> validateEntry (asJSON entry1) = Inr False"
    and s3: "\<not> persistedValid (snd (snd (saveEntry now random36 entry w)))"
    and s4: "readable (item (snd (snd (saveEntry now random36 entry w)))) = []"
    using bad1 read1
    by (auto simp: save called_fields wrote_fields persistedValid_written)
  have upd: "fst (updateEntry entry w) = Inr False
      \<and> \<not> persistedValid (snd (updateEntry entry w))
      \<and> readable (item (snd (updateEntry entry w))) = []"
    if found: "list_ex (sameId (idOf entry)) ?R"
  proof -
    let ?i = "nat (findIndex (sameId (idOf entry)) ?R)"
    let ?u = "Encodes (JArr (?R[?i := entry]))"
    have ne: "findIndex (sameId (idOf entry)) ?R \<noteq> - 1"
      using found by (simp add: findIndex_Nil_iff)
    then have i: "?i < length ?R"
      using findIndex_found[OF ne] by simp
    have bad: "validateEntry (asJSON entry) = Inr False"
      using assms(1-4) by (rule asJSON_required_number)
    have "entry \<in> set (?R[?i := entry])"
      using i by (rule set_update_memI)
    with bad have nall: "\<not> list_all (\<lambda>e. validateEntry (asJSON e) = Inr True) (?R[?i := entry])"
      unfolding list_all_iff by force
    then have read: "readable (Some ?u) = []"
      unfolding readable_written by simp
    have "updateEntry entry w = (Inr False, called GetItem (wrote ?u (called GetItem w)))"
      using nr ne
      by (simp add: updateEntry_eq[OF assms(1)] R Let_def entriesRead_def wrote_fields read)
    with nall read show ?thesis
      by (simp add: called_fields wrote_fields persistedValid_written)
  qed
  from s1 s2 s3 s4 upd show ?thesis
    by blast
qed

text \<open>
  The theorem on a store that holds one entry, which satisfies the invariant and reads
  as that entry: an entry whose \<^verbatim>\<open>latitude\<close> is NaN passes the validator, its insert
  gives \<^verbatim>\<open>false\<close>, and afterwards the stored string holds both entries, the invariant
  is broken, and the store reads as empty.
\<close>

theorem non_finite_number_is_persisted_witness:
  "persistedValid (holding [sample ''a'' ''Porto'' 10])
   \<and> fst (getEntries (holding [sample ''a'' ''Porto'' 10])) = Inr [sample ''a'' ''Porto'' 10]
   \<and> validateEntry (setProp (sample ''n'' ''Braga'' 30) ''latitude'' (JNum NaN)) = Inr True
   \<and> fst (saveEntry 0 ''0.7'' (setProp (sample ''n'' ''Braga'' 30) ''latitude'' (JNum NaN))
        (holding [sample ''a'' ''Porto'' 10])) = Inr False
   \<and> item (snd (snd (saveEntry 0 ''0.7'' (setProp (sample ''n'' ''Braga'' 30) ''latitude'' (JNum NaN))
        (holding [sample ''a'' ''Porto'' 10]))))
      = Some (Encodes (JArr [sample ''a'' ''Porto'' 10,
           setProp (sample ''n'' ''Braga'' 30) ''latitude'' (JNum NaN)]))
   \<and> \<not> persistedValid (snd (snd (saveEntry 0 ''0.7''
        (setProp (sample ''n'' ''Braga'' 30) ''latitude'' (JNum NaN)) (holding [sample ''a'' ''Porto'' 10]))))
   \<and> readable (item (snd (snd (saveEntry 0 ''0.7''
        (setProp (sample ''n'' ''Braga'' 30) ''latitude'' (JNum NaN)) (holding [sample ''a'' ''Porto'' 10])))))
      = []"
proof -
  let ?w = "holding [sample ''a'' ''Porto'' 10]"
  let ?e = "setProp (sample ''n'' ''Braga'' 30) ''latitude'' (JNum NaN)"
  have w: "rejects ?w = []"
    by (simp add: holding_def)
  have r: "readable (item ?w) = [sample ''a'' ''Porto'' 10]"
    by (simp add: holding_def readable_written_stable sample_simps)
  have pv: "persistedValid ?w"
    by (simp add: persistedValid_written[of _ "[sample ''a'' ''Porto'' 10]"] holding_def sample_simps)
  have g: "fst (getEntries ?w) = Inr [sample ''a'' ''Porto'' 10]"
    by (simp add: getEntries_read entriesRead_working[OF w] r)
  have e: "validateEntry ?e = Inr True" "propOf ?e ''latitude'' = JNum NaN" "idOf ?e = JStr ''n''"
    by (simp_all add: sample_def validateEntry_object requiredFields_def idOf_def)
  have "\<not> list_ex (sameId (idOf ?e)) (entriesRead ?w)"
    by (simp add: entriesRead_working[OF w] r e(3) sample_simps)
  then have it: "item (snd (snd (saveEntry 0 ''0.7'' ?e ?w)))
      = Some (Encodes (JArr [sample ''a'' ''Porto'' 10, ?e]))"
    by (simp add: saveEntry_eq[OF e(1)] Let_def entriesRead_working[OF w] r rejecting_def
        called_fields wrote_fields w)
  from non_finite_number_is_persisted[OF e(1) _ e(2) _ w, of 0 "''0.7''"] pv g e(1) it
  show ?thesis
    by simp
qed

text \<open>
  C9. The validator looks at \<^verbatim>\<open>tags\<close> only to see that it is an array and at
  \<^verbatim>\<open>weather\<close> only to see that its \<^verbatim>\<open>typeof\<close> is \<^verbatim>\<open>object\<close>. An accepted entry
  stays accepted when \<^verbatim>\<open>tags\<close> is replaced by any array and when \<^verbatim>\<open>weather\<close> is
  replaced by \<^verbatim>\<open>null\<close> or by any object, although the value is then no
  \<^verbatim>\<open>TravelEntry\<close> as the type is declared: not when an element of \<^verbatim>\<open>tags\<close> is no
  string, and not when \<^verbatim>\<open>weather\<close> is \<^verbatim>\<open>null\<close>.
\<close>

theorem validator_ignores_contents:
  assumes "validateEntry e = Inr True"
  shows "validateEntry (setProp e ''tags'' (JArr xs)) = Inr True
    \<and> validateEntry (setProp e ''weather'' JNull) = Inr True
    \<and> validateEntry (setProp e ''weather'' (JObj kvs)) = Inr True
    \<and> ((\<exists>x\<in>set xs. typeof x \<noteq> ''string'') \<longrightarrow> \<not> isTravelEntry (setProp e ''tags'' (JArr xs)))
    \<and> \<not> isTravelEntry (setProp e ''weather'' JNull)"
proof -
  have obj: "isObject e"
    using assms by (rule valid_isObject)
  have "\<not> isTravelEntry (setProp e ''tags'' (JArr xs))" if "\<exists>x\<in>set xs. typeof x \<noteq> ''string''"
    using that obj
    by (auto simp: isTravelEntry_def optionalOf_def propOf_setProp list_all_iff)
  moreover have "\<not> isTravelEntry (setProp e ''weather'' JNull)"
    using obj by (simp add: isTravelEntry_def optionalOf_def propOf_setProp isWeather_def)
  ultimately show ?thesis
    using validateEntry_setProp(1-3)[OF assms] by blast
qed

theorem validator_ignores_contents_witness:
  "validateEntry (setProp fullEntry ''tags'' (JArr [JNum (Fin 7), JBool True])) = Inr True
   \<and> \<not> isTravelEntry (setProp fullEntry ''tags'' (JArr [JNum (Fin 7), JBool True]))
   \<and> validateEntry (setProp fullEntry ''weather'' JNull) = Inr True
   \<and> \<not> isTravelEntry (setProp fullEntry ''weather'' JNull)
   \<and> isTravelEntry fullEntry"
proof -
  have "validateEntry fullEntry = Inr True"
    by (simp add: fullEntry_def validateEntry_object requiredFields_def)
  moreover have "isTravelEntry fullEntry"
    by (simp add: fullEntry_def isTravelEntry_def optionalOf_def isWeather_def)
  ultimately show ?thesis
    using validator_ignores_contents[of fullEntry "[JNum (Fin 7), JBool True]" "[]"]
    by simp
qed

text \<open>
  C10. Deleting with the empty string as identifier gives \<^verbatim>\<open>false\<close> and leaves the
  world as it was, the log of calls included: the store is neither read nor written.
\<close>

theorem removeEntry_empty_id: "removeEntry (JStr '''') w = (Inr False, w)"
proof -
  have "\<not> truthy (JStr '''')"
    by simp
  then have "removeEntry_try (JStr '''') w = (Inl (Error ''Invalid entry ID''), w)"
    by (simp add: removeEntry_try_def)
  then show ?thesis
    by (simp add: removeEntry_def tryCatch_def)
qed

text \<open>
  The theorem on a store that holds an entry whose identifier is the empty string: the
  entry is read by \<open>entriesRead\<close>, and the delete leaves the world as it was.
\<close>

theorem removeEntry_empty_id_witness:
  "removeEntry (JStr '''') (holding [sample '''' ''Porto'' 10])
     = (Inr False, holding [sample '''' ''Porto'' 10])
   \<and> entriesRead (holding [sample '''' ''Porto'' 10]) = [sample '''' ''Porto'' 10]"
  using removeEntry_empty_id[of "holding [sample '''' ''Porto'' 10]"]
  by (simp add: entriesRead_holding sample_valid sample_stable sortEntries_def)

end
